theory Spec2Isabelle
  imports Main
begin

section \<open>Text and bytes\<close>

text \<open>
  A Python \<open>str\<close> is a sequence of Unicode code points and a \<open>bytes\<close> object a
  sequence of integers below 256. Both are lists of naturals here, under two names.
  \<open>ascii\<close> turns an Isabelle literal into either.
\<close>

type_synonym pystr = "nat list"
type_synonym bytes = "nat list"

definition ascii :: "string \<Rightarrow> nat list" where
  "ascii s = map of_char s"

text \<open>\<open>needle in hay\<close> on strings: \<open>needle\<close> occurs as a contiguous run.\<close>

fun starts_with :: "pystr \<Rightarrow> pystr \<Rightarrow> bool" where
  "starts_with [] hay = True"
| "starts_with (n # ns) [] = False"
| "starts_with (n # ns) (h # hs) = (if n = h then starts_with ns hs else False)"

fun py_in :: "pystr \<Rightarrow> pystr \<Rightarrow> bool" where
  "py_in needle [] = (needle = [])"
| "py_in needle (h # hs) = (if starts_with needle (h # hs) then True else py_in needle hs)"

text \<open>
  \<open>str.isspace\<close> for one code point, as \<open>str.strip()\<close> with no argument uses it:
  the characters of bidirectional class WS, B or S and of category Zs.
\<close>

definition is_space :: "nat \<Rightarrow> bool" where
  "is_space c = (c \<in> set [9, 10, 11, 12, 13, 28, 29, 30, 31, 32, 133, 160, 5760,
     8192, 8193, 8194, 8195, 8196, 8197, 8198, 8199, 8200, 8201, 8202,
     8232, 8233, 8239, 8287, 12288])"

definition strip :: "pystr \<Rightarrow> pystr" where
  "strip s = rev (dropWhile is_space (rev (dropWhile is_space s)))"

text \<open>
  The line boundaries of \<open>str.splitlines()\<close>: LF, VT, FF, CR, FS, GS, RS, NEL, LS, PS;
  CR LF counts once. The boundaries are not kept and a final boundary opens no empty line.
\<close>

definition is_linebreak :: "nat \<Rightarrow> bool" where
  "is_linebreak c = (c \<in> set [10, 11, 12, 13, 28, 29, 30, 133, 8232, 8233])"

fun splitlines :: "pystr \<Rightarrow> pystr list" where
  "splitlines [] = []"
| "splitlines [c] = (if is_linebreak c then [[]] else [[c]])"
| "splitlines (c # d # cs) =
     (if c = 13 \<and> d = 10 then [] # splitlines cs
      else if is_linebreak c then [] # splitlines (d # cs)
      else (case splitlines (d # cs) of
              [] \<Rightarrow> [[c]]
            | l # ls \<Rightarrow> (c # l) # ls))"

text \<open>\<open>sep.join(xs)\<close>.\<close>

fun join :: "pystr \<Rightarrow> pystr list \<Rightarrow> pystr" where
  "join sep [] = []"
| "join sep [x] = x"
| "join sep (x # y # ys) = x @ sep @ join sep (y # ys)"

section \<open>The output cleaner\<close>

text \<open>
  \<open>ansi_escape.sub('', output)\<close> for the pattern
  \<^verbatim>\<open>(?:\x1B[@-Z\\-_]|\x1B\[?.*?[ -/]*[@-~])\<close>.
  Both alternatives start at an ESC (27). The second one takes an optional \<open>[\<close> (91),
  then lazily any characters but LF, then characters of \<open>[ -/]\<close>, then one character of
  \<open>[@-~]\<close> (64 to 126): since no character of \<open>[ -/]\<close> lies in \<open>[@-~]\<close>, its first
  match ends at the first character of \<open>[@-~]\<close> that no LF precedes
  (\<open>find_final\<close>). When the \<open>[\<close> was taken and no such character follows, the
  matcher backtracks, gives the \<open>[\<close> back and ends the match on it. The first
  alternative (ESC and one character of \<open>[@-Z]\<close> or \<open>[\-_]\<close>) matches only where the
  second one, without \<open>[\<close>, ends on the same character, so it adds no case.
  \<open>match_escape\<close> gets the text after the ESC and returns the text after the match.
\<close>

fun find_final :: "pystr \<Rightarrow> pystr option" where
  "find_final [] = None"
| "find_final (c # cs) =
     (if c = 10 then None
      else if 64 \<le> c \<and> c \<le> 126 then Some cs
      else find_final cs)"

fun match_escape :: "pystr \<Rightarrow> pystr option" where
  "match_escape [] = None"
| "match_escape (c # cs) =
     (if c = 91 then (case find_final cs of Some rest \<Rightarrow> Some rest | None \<Rightarrow> Some cs)
      else find_final (c # cs))"

lemma find_final_shorter: "find_final cs = Some rest \<Longrightarrow> length rest < length cs"
  by (induction cs) (auto split: if_splits)

lemma match_escape_shorter:
  assumes "match_escape cs = Some rest"
  shows "length rest < length cs"
proof (cases cs)
  case Nil
  with assms show ?thesis by simp
next
  case (Cons c cs')
  show ?thesis
  proof (cases "c = 91")
    case True
    with assms Cons find_final_shorter [of cs' rest] show ?thesis
      by (cases "find_final cs'") auto
  next
    case False
    with assms Cons find_final_shorter [of cs rest] show ?thesis by simp
  qed
qed

function ansi_sub :: "pystr \<Rightarrow> pystr" where
  "ansi_sub [] = []"
| "ansi_sub (c # cs) =
     (if c = 27 then (case match_escape cs of
                        Some rest \<Rightarrow> ansi_sub rest
                      | None \<Rightarrow> c # ansi_sub cs)
      else c # ansi_sub cs)"
  by pat_completeness auto
termination
proof (relation "measure length")
  show "wf (measure length)" by simp
next
  fix c :: nat and cs rest :: "nat list"
  assume "c = 27" "match_escape cs = Some rest"
  then show "(rest, c # cs) \<in> measure length"
    using match_escape_shorter [of cs rest] by simp
qed simp_all

text \<open>The prompt markers: \<open>self.prompt_markers\<close>, set once in \<open>__init__\<close>.\<close>

definition prompt_markers :: "pystr list" where
  "prompt_markers = [ascii ''$ '', ascii ''# '', ascii ''> '']"

text \<open>
  The loop of \<open>_clean_output\<close> over the lines: a line is stripped first, and the
  stripped line is kept when it is not empty and holds no marker.
\<close>

definition keep_line :: "pystr \<Rightarrow> bool" where
  "keep_line line = (if line = [] then False else list_all (\<lambda>marker. \<not> py_in marker line) prompt_markers)"

definition filter_lines :: "pystr list \<Rightarrow> pystr list" where
  "filter_lines lines = filter keep_line (map strip lines)"

definition drop_command_line :: "pystr \<Rightarrow> pystr list \<Rightarrow> pystr list" where
  "drop_command_line command lines =
     (case lines of
        [] \<Rightarrow> []
      | first # rest \<Rightarrow> if py_in command first then rest else first # rest)"

definition clean_output :: "pystr \<Rightarrow> pystr \<Rightarrow> pystr" where
  "clean_output command output =
     (if output = [] then []
      else join [10] (filter_lines (drop_command_line command (splitlines (ansi_sub output)))))"

section \<open>UTF-8\<close>

text \<open>
  \<open>bytes.decode('utf-8')\<close> as CPython scans it. \<open>utf8_next\<close> reads one item from a
  non-empty input and returns it with the number of bytes it took: a code point, or
  \<open>None\<close> for an ill-formed run (an invalid start byte takes one byte; a sequence cut
  short by an invalid continuation byte or by the end of the input takes its well-formed
  prefix). The strict decoder raises \<open>UnicodeDecodeError\<close> on the first \<open>None\<close>; with
  \<open>errors='replace'\<close> each \<open>None\<close> becomes U+FFFD (65533).
\<close>

definition is_cont :: "nat \<Rightarrow> bool" where
  "is_cont b = (128 \<le> b \<and> b < 192)"

definition second_ok :: "nat \<Rightarrow> nat \<Rightarrow> bool" where
  "second_ok b0 b1 =
     (is_cont b1 \<and> \<not> (b0 = 224 \<and> b1 < 160) \<and> \<not> (b0 = 237 \<and> 160 \<le> b1)
      \<and> \<not> (b0 = 240 \<and> b1 < 144) \<and> \<not> (b0 = 244 \<and> 144 \<le> b1))"

fun utf8_next :: "bytes \<Rightarrow> nat option \<times> nat" where
  "utf8_next [] = (None, 1)"
| "utf8_next (b0 # bs) =
     (if b0 < 128 then (Some b0, 1)
      else if b0 < 194 then (None, 1)
      else if b0 < 224 then
        (case bs of
           [] \<Rightarrow> (None, 1)
         | b1 # r1 \<Rightarrow>
             if is_cont b1 then (Some ((b0 - 192) * 64 + (b1 - 128)), 2) else (None, 1))
      else if b0 < 240 then
        (case bs of
           [] \<Rightarrow> (None, 1)
         | b1 # r1 \<Rightarrow>
             if second_ok b0 b1 then
               (case r1 of
                  [] \<Rightarrow> (None, 2)
                | b2 # r2 \<Rightarrow>
                    if is_cont b2
                    then (Some ((b0 - 224) * 4096 + (b1 - 128) * 64 + (b2 - 128)), 3)
                    else (None, 2))
             else (None, 1))
      else if b0 < 245 then
        (case bs of
           [] \<Rightarrow> (None, 1)
         | b1 # r1 \<Rightarrow>
             if second_ok b0 b1 then
               (case r1 of
                  [] \<Rightarrow> (None, 2)
                | b2 # r2 \<Rightarrow>
                    if is_cont b2 then
                      (case r2 of
                         [] \<Rightarrow> (None, 3)
                       | b3 # r3 \<Rightarrow>
                           if is_cont b3
                           then (Some ((b0 - 240) * 262144 + (b1 - 128) * 4096
                                       + (b2 - 128) * 64 + (b3 - 128)), 4)
                           else (None, 3))
                    else (None, 2))
             else (None, 1))
      else (None, 1))"

lemma utf8_next_takes: "0 < snd (utf8_next bs)"
  by (cases bs) (simp_all split: list.split)

function utf8_scan :: "bytes \<Rightarrow> nat option list" where
  "utf8_scan bs =
     (if bs = [] then []
      else fst (utf8_next bs) # utf8_scan (drop (snd (utf8_next bs)) bs))"
  by pat_completeness auto
termination
proof (relation "measure length")
  show "wf (measure length)" by simp
next
  fix bs :: bytes
  assume "bs \<noteq> []"
  then show "(drop (snd (utf8_next bs)) bs, bs) \<in> measure length"
    using utf8_next_takes [of bs] by simp
qed

declare utf8_scan.simps [simp del]

definition utf8_decode :: "bytes \<Rightarrow> pystr option" where
  "utf8_decode bs =
     (if list_all (\<lambda>item. item \<noteq> None) (utf8_scan bs)
      then Some (map the (utf8_scan bs)) else None)"

definition utf8_decode_replace :: "bytes \<Rightarrow> pystr" where
  "utf8_decode_replace bs =
     map (\<lambda>item. case item of None \<Rightarrow> 65533 | Some c \<Rightarrow> c) (utf8_scan bs)"

text \<open>
  \<open>str.encode('utf-8')\<close>: a surrogate code point has no encoding and raises
  \<open>UnicodeEncodeError\<close> (\<open>None\<close> here).
\<close>

definition utf8_encode_cp :: "nat \<Rightarrow> bytes option" where
  "utf8_encode_cp c =
     (if c < 128 then Some [c]
      else if c < 2048 then Some [192 + c div 64, 128 + c mod 64]
      else if 55296 \<le> c \<and> c < 57344 then None
      else if c < 65536 then Some [224 + c div 4096, 128 + c div 64 mod 64, 128 + c mod 64]
      else Some [240 + c div 262144, 128 + c div 4096 mod 64, 128 + c div 64 mod 64,
                 128 + c mod 64])"

fun utf8_encode :: "pystr \<Rightarrow> bytes option" where
  "utf8_encode [] = Some []"
| "utf8_encode (c # cs) =
     (case utf8_encode_cp c of
        None \<Rightarrow> None
      | Some b \<Rightarrow> (case utf8_encode cs of None \<Rightarrow> None | Some bs \<Rightarrow> Some (b @ bs)))"

section \<open>Exceptions\<close>

text \<open>
  The exceptions the session manager raises or receives. \<open>ProcessLookupError\<close>,
  \<open>PermissionError\<close>, \<open>BlockingIOError\<close> and \<open>TimeoutError\<close> are subclasses of
  \<open>OSError\<close> in Python 3; \<open>termios.error\<close> and \<open>UnicodeEncodeError\<close> are neither an
  \<open>OSError\<close> nor a \<open>RuntimeError\<close>. All of them are \<open>Exception\<close>s. A
  \<open>RuntimeError\<close> carries the place that raised it instead of its message, a
  \<open>TimeoutError\<close> the timeout of its message.
\<close>

datatype reason =
    NotStarted          \<comment> \<open>Terminal not started or process not alive\<close>
  | FdIsNone            \<comment> \<open>Terminal file descriptor is None\<close>
  | NoData              \<comment> \<open>No data received from terminal after maximum retries\<close>
  | ConnectFailed       \<comment> \<open>Failed to establish terminal connection\<close>
  | ShortWrite nat nat  \<comment> \<open>Failed to write complete command: wrote .. of .. bytes\<close>
  | ShellInitFailed     \<comment> \<open>Shell initialization failed\<close>

datatype exn =
    ProcessLookupError
  | PermissionError
  | BlockingIOError
  | TimeoutError int
  | OSError
  | RuntimeError reason
  | TermiosError
  | UnicodeEncodeError

fun is_OSError :: "exn \<Rightarrow> bool" where
  "is_OSError ProcessLookupError = True"
| "is_OSError PermissionError = True"
| "is_OSError BlockingIOError = True"
| "is_OSError (TimeoutError t) = True"
| "is_OSError OSError = True"
| "is_OSError (RuntimeError r) = False"
| "is_OSError TermiosError = False"
| "is_OSError UnicodeEncodeError = False"

fun is_RuntimeError :: "exn \<Rightarrow> bool" where
  "is_RuntimeError (RuntimeError r) = True"
| "is_RuntimeError ProcessLookupError = False"
| "is_RuntimeError PermissionError = False"
| "is_RuntimeError BlockingIOError = False"
| "is_RuntimeError (TimeoutError t) = False"
| "is_RuntimeError OSError = False"
| "is_RuntimeError TermiosError = False"
| "is_RuntimeError UnicodeEncodeError = False"

section \<open>The session and its environment\<close>

text \<open>
  The fields of \<open>TerminalManager\<close> that change. The bounds \<open>MAX_RECONNECT_ATTEMPTS\<close>,
  \<open>MAX_READ_RETRIES\<close> and the interval \<open>READ_TIMEOUT\<close> are set in \<open>__init__\<close> and
  never assigned again; times are in milliseconds.
\<close>

record session =
  working_dir :: pystr
  master_fd :: "nat option"
  slave_fd :: "nat option"
  shell_pid :: "nat option"
  process_alive :: bool
  reconnect_attempts :: nat

definition init :: "pystr \<Rightarrow> session" where
  "init dir = \<lparr>working_dir = dir, master_fd = None, slave_fd = None, shell_pid = None,
               process_alive = False, reconnect_attempts = 0\<rparr>"

definition MAX_RECONNECT_ATTEMPTS :: nat where
  "MAX_RECONNECT_ATTEMPTS = 3"

definition MAX_READ_RETRIES :: nat where
  "MAX_READ_RETRIES = 50"

definition READ_TIMEOUT :: nat where
  "READ_TIMEOUT = 100"

text \<open>Python's truth value of an \<open>Optional[int]\<close>: \<open>None\<close> and \<open>0\<close> are false.\<close>

fun truthy :: "nat option \<Rightarrow> bool" where
  "truthy None = False"
| "truthy (Some n) = (n \<noteq> 0)"

text \<open>
  The operating system, as the parent process sees it. The clock is simulated: it moves
  only when the program sleeps, by the time asked for. What each system call answers is
  scripted, one queue per call:
  \<^item> \<open>reads\<close>: what \<open>os.read\<close> on the master side finds, each entry with the time from
    which it is there: data (empty data is the end of the stream), a would-block
    condition (\<open>BlockingIOError\<close>) or another \<open>OSError\<close>. A read before the first
    entry is due, or after the last, would block.
  \<^item> \<open>writes\<close>: \<open>os.write\<close> takes all bytes, takes only some, or raises \<open>OSError\<close>;
    all bytes when the queue is empty.
  \<^item> \<open>kills\<close>: \<open>os.kill\<close> returns, or raises \<open>ProcessLookupError\<close> (no such process)
    or \<open>PermissionError\<close>; it returns when the queue is empty.
  \<^item> \<open>closes\<close>: \<open>os.close\<close> raises \<open>OSError\<close> on \<open>True\<close>.
  \<^item> \<open>ptys\<close>: \<open>pty.openpty\<close> returns two descriptors or raises \<open>OSError\<close>; it raises
    when the queue is empty.
  \<^item> \<open>ctls\<close>: \<open>tcgetattr\<close>, \<open>tcsetattr\<close>, \<open>ioctl\<close> and \<open>fcntl\<close> raise on \<open>True\<close>.
  \<^item> \<open>forks\<close>: \<open>os.fork\<close> returns the child's process id in the parent, which is
    positive (\<open>Forked n\<close> stands for \<open>n + 1\<close>), or raises \<open>OSError\<close>; it raises when the
    queue is empty. The child's branch of \<open>start\<close> ends in \<open>execv\<close> or \<open>_exit\<close> and
    never returns to the caller, so the model follows the parent.
\<close>

datatype read_result = ReadData bytes | ReadWouldBlock | ReadFail
datatype write_result = WriteAll | WriteShort nat | WriteFail
datatype kill_result = KillOk | KillNoProcess | KillNotPermitted
datatype openpty_result = Pty nat nat | PtyFail
datatype fork_result = Forked nat | ForkFail

record world =
  now :: nat
  reads :: "(nat \<times> read_result) list"
  writes :: "write_result list"
  kills :: "kill_result list"
  closes :: "bool list"
  ptys :: "openpty_result list"
  ctls :: "bool list"
  forks :: "fork_result list"

definition sleep :: "nat \<Rightarrow> world \<Rightarrow> world" where
  "sleep ms w = w\<lparr>now := now w + ms\<rparr>"

definition os_read :: "nat \<Rightarrow> world \<Rightarrow> read_result \<times> world" where
  "os_read n w =
     (case reads w of
        [] \<Rightarrow> (ReadWouldBlock, w)
      | (t, r) # rest \<Rightarrow>
          if now w < t then (ReadWouldBlock, w)
          else (case r of
                  ReadData bs \<Rightarrow>
                    if length bs \<le> n then (ReadData bs, w\<lparr>reads := rest\<rparr>)
                    else (ReadData (take n bs), w\<lparr>reads := (t, ReadData (drop n bs)) # rest\<rparr>)
                | ReadWouldBlock \<Rightarrow> (ReadWouldBlock, w\<lparr>reads := rest\<rparr>)
                | ReadFail \<Rightarrow> (ReadFail, w\<lparr>reads := rest\<rparr>)))"

text \<open>\<open>os.write\<close>: the number of bytes written, \<open>None\<close> when it raises \<open>OSError\<close>.\<close>

definition os_write :: "bytes \<Rightarrow> world \<Rightarrow> nat option \<times> world" where
  "os_write bs w =
     (case writes w of
        [] \<Rightarrow> (Some (length bs), w)
      | WriteAll # rest \<Rightarrow> (Some (length bs), w\<lparr>writes := rest\<rparr>)
      | WriteShort n # rest \<Rightarrow> (Some (min n (length bs)), w\<lparr>writes := rest\<rparr>)
      | WriteFail # rest \<Rightarrow> (None, w\<lparr>writes := rest\<rparr>))"

definition os_kill :: "world \<Rightarrow> kill_result \<times> world" where
  "os_kill w = (case kills w of [] \<Rightarrow> (KillOk, w) | k # rest \<Rightarrow> (k, w\<lparr>kills := rest\<rparr>))"

definition os_close :: "world \<Rightarrow> bool \<times> world" where
  "os_close w = (case closes w of [] \<Rightarrow> (False, w) | c # rest \<Rightarrow> (c, w\<lparr>closes := rest\<rparr>))"

definition os_openpty :: "world \<Rightarrow> openpty_result \<times> world" where
  "os_openpty w = (case ptys w of [] \<Rightarrow> (PtyFail, w) | p # rest \<Rightarrow> (p, w\<lparr>ptys := rest\<rparr>))"

definition os_ctl :: "world \<Rightarrow> bool \<times> world" where
  "os_ctl w = (case ctls w of [] \<Rightarrow> (False, w) | c # rest \<Rightarrow> (c, w\<lparr>ctls := rest\<rparr>))"

definition os_fork :: "world \<Rightarrow> fork_result \<times> world" where
  "os_fork w = (case forks w of [] \<Rightarrow> (ForkFail, w) | f # rest \<Rightarrow> (f, w\<lparr>forks := rest\<rparr>))"

text \<open>What is left to read: the measure under which the read loops end.\<close>

fun read_size :: "read_result \<Rightarrow> nat" where
  "read_size (ReadData bs) = Suc (length bs)"
| "read_size ReadWouldBlock = 1"
| "read_size ReadFail = 1"

definition pending :: "world \<Rightarrow> nat" where
  "pending w = sum_list (map (\<lambda>e. read_size (snd e)) (reads w))"

text \<open>
  An environment in which every scripted read raises \<open>BlockingIOError\<close>; so does every
  read once the script is used up.
\<close>

definition would_block_only :: "world \<Rightarrow> bool" where
  "would_block_only w = list_all (\<lambda>e. snd e = ReadWouldBlock) (reads w)"

lemma os_read_now: "os_read n w = (r, w') \<Longrightarrow> now w' = now w"
  by (auto simp: os_read_def split: list.splits if_splits read_result.splits)

lemma os_read_pending: "os_read n w = (r, w') \<Longrightarrow> pending w' \<le> pending w"
  by (auto simp: os_read_def pending_def split: list.splits if_splits read_result.splits)

lemma os_read_data_pending:
  "0 < n \<Longrightarrow> os_read n w = (ReadData bs, w') \<Longrightarrow> pending w' < pending w"
  by (auto simp: os_read_def pending_def split: list.splits if_splits read_result.splits)

section \<open>The polling loops\<close>

text \<open>
  Each loop of the source polls the master side until a deadline. A loop ends because an
  iteration either sleeps, which uses up time before the deadline, or takes something
  from what is left to read.
\<close>

definition time_left :: "nat \<Rightarrow> int \<Rightarrow> world \<Rightarrow> nat" where
  "time_left start limit w = nat (int start + limit + 1 - int (now w))"

lemma time_left_sleep:
  "int (now w) - int start \<le> limit \<Longrightarrow> 0 < ms \<Longrightarrow> now w' = now w
     \<Longrightarrow> time_left start limit (sleep ms w') < time_left start limit w"
  by (simp add: time_left_def sleep_def)

lemma time_left_read:
  "os_read n w = (r, w') \<Longrightarrow> time_left start limit w' = time_left start limit w"
  by (simp add: time_left_def os_read_now)

lemma loop_data_step:
  "(x, y) = os_read n w \<Longrightarrow> x = ReadData c \<Longrightarrow> 0 < n
     \<Longrightarrow> time_left start limit y = time_left start limit w \<and> pending y < pending w"
  using time_left_read [of n w x y start limit] os_read_data_pending [of n w c y] by simp

lemma loop_sleep_step:
  "(x, y) = os_read n w \<Longrightarrow> \<not> limit < int (now w) - int start \<Longrightarrow> 0 < ms
     \<Longrightarrow> time_left start limit (sleep ms y) < time_left start limit w"
  using time_left_sleep [of w start limit ms y] os_read_now [of n w x y] by simp

text \<open>
  The loop of \<open>_clear_initial_output\<close>: for one second, read and drop what is there; an
  empty read ends it, an \<open>OSError\<close> (a would-block condition is one) sleeps 0.1 s.
\<close>

function clear_loop :: "nat \<Rightarrow> world \<Rightarrow> world" where
  "clear_loop start_time w =
     (if int (now w) - int start_time < 1000 then
        (case os_read 4096 w of
           (ReadData chunk, w') \<Rightarrow> if chunk = [] then w' else clear_loop start_time w'
         | (ReadWouldBlock, w') \<Rightarrow> clear_loop start_time (sleep 100 w')
         | (ReadFail, w') \<Rightarrow> clear_loop start_time (sleep 100 w'))
      else w)"
  by pat_completeness auto
termination
  apply (relation "measures [\<lambda>(start_time, w). time_left start_time 999 w,
                             \<lambda>(start_time, w). pending w]")
  subgoal by simp
  subgoal for start_time w x y chunk
    using loop_data_step [of x y 4096 w chunk start_time 999] by simp
  subgoal for start_time w x y
    using loop_sleep_step [of x y 4096 w 999 start_time 100] by simp
  subgoal for start_time w x y
    using loop_sleep_step [of x y 4096 w 999 start_time 100] by simp
  done

declare clear_loop.simps [simp del]

text \<open>
  The loop of \<open>_verify_shell\<close>: for five seconds, read up to 1024 bytes and decode them
  strictly; the answer is \<open>True\<close> once a chunk holds \<open>shell_test\<close>. A chunk that does
  not decode raises \<open>UnicodeDecodeError\<close>, which the outer handler of \<open>_verify_shell\<close>
  turns into \<open>False\<close>. A chunk without the probe text is read again at once.
\<close>

function verify_loop :: "nat \<Rightarrow> world \<Rightarrow> bool \<times> world" where
  "verify_loop start_time w =
     (if int (now w) - int start_time < 5000 then
        (case os_read 1024 w of
           (ReadData chunk, w') \<Rightarrow>
             (case utf8_decode chunk of
                None \<Rightarrow> (False, w')
              | Some response \<Rightarrow>
                  if py_in (ascii ''shell_test'') response then (True, w')
                  else verify_loop start_time w')
         | (ReadWouldBlock, w') \<Rightarrow> verify_loop start_time (sleep 100 w')
         | (ReadFail, w') \<Rightarrow> verify_loop start_time (sleep 100 w'))
      else (False, w))"
  by pat_completeness auto
termination
  apply (relation "measures [\<lambda>(start_time, w). time_left start_time 4999 w,
                             \<lambda>(start_time, w). pending w]")
  subgoal by simp
  subgoal for start_time w x y chunk
    using loop_data_step [of x y 1024 w chunk start_time 4999] by simp
  subgoal for start_time w x y
    using loop_sleep_step [of x y 1024 w 4999 start_time 100] by simp
  subgoal for start_time w x y
    using loop_sleep_step [of x y 1024 w 4999 start_time 100] by simp
  done

declare verify_loop.simps [simp del]

text \<open>
  The loop of \<open>_read_terminal_output\<close>, with its local variables as arguments
  (\<open>current_time\<close> is \<open>now w\<close>). After the loop \<open>finish\<close> decodes what is left in the
  buffer with replacement characters and joins the chunks.
\<close>

definition finish :: "bytes \<Rightarrow> pystr list \<Rightarrow> pystr" where
  "finish buffer output_chunks =
     concat (if buffer = [] then output_chunks
             else output_chunks @ [utf8_decode_replace buffer])"

function read_loop ::
  "int \<Rightarrow> nat \<Rightarrow> nat \<Rightarrow> nat \<Rightarrow> bytes \<Rightarrow> pystr list \<Rightarrow> session \<Rightarrow> world
     \<Rightarrow> (exn + pystr) \<times> world"
where
  "read_loop timeout start_time last_read_time retry_count buffer output_chunks s w =
     (if timeout * 1000 < int (now w) - int start_time then
        (if output_chunks = [] then (Inl (TimeoutError timeout), w)
         else (Inr (finish buffer output_chunks), w))
      else if 2000 < int (now w) - int last_read_time \<and> output_chunks \<noteq> [] then
        (Inr (finish buffer output_chunks), w)
      else
        (case master_fd s of
           None \<Rightarrow> (Inl (RuntimeError FdIsNone), w)
         | Some fd \<Rightarrow>
             (case os_read 4096 w of
                (ReadData chunk, w') \<Rightarrow>
                  if chunk \<noteq> [] then
                    (case utf8_decode (buffer @ chunk) of
                       Some text \<Rightarrow>
                         read_loop timeout start_time (now w) 0 [] (output_chunks @ [text]) s w'
                     | None \<Rightarrow>
                         read_loop timeout start_time last_read_time retry_count
                           (buffer @ chunk) output_chunks s w')
                  else if MAX_READ_RETRIES \<le> retry_count + 1 then
                    (if output_chunks = [] then (Inl (RuntimeError NoData), w')
                     else (Inr (finish buffer output_chunks), w'))
                  else
                    read_loop timeout start_time last_read_time (retry_count + 1)
                      buffer output_chunks s (sleep READ_TIMEOUT w')
              | (ReadWouldBlock, w') \<Rightarrow>
                  read_loop timeout start_time last_read_time retry_count
                    buffer output_chunks s (sleep READ_TIMEOUT w')
              | (ReadFail, w') \<Rightarrow> (Inr (finish buffer output_chunks), w'))))"
  by pat_completeness auto
termination
  apply (relation "measures
          [\<lambda>(timeout, start_time, l, r, b, c, s, w). time_left start_time (timeout * 1000) w,
           \<lambda>(timeout, start_time, l, r, b, c, s, w). pending w]")
  subgoal by simp
  subgoal for timeout start_time last_read_time retry_count buffer output_chunks s w fd x y chunk
    using loop_data_step [of x y 4096 w chunk start_time "timeout * 1000"] by simp
  subgoal for timeout start_time last_read_time retry_count buffer output_chunks s w fd x y chunk
    using loop_data_step [of x y 4096 w chunk start_time "timeout * 1000"] by simp
  subgoal for timeout start_time last_read_time retry_count buffer output_chunks s w fd x y chunk
    using loop_sleep_step [of x y 4096 w "timeout * 1000" start_time READ_TIMEOUT]
    by (simp add: READ_TIMEOUT_def)
  subgoal for timeout start_time last_read_time retry_count buffer output_chunks s w fd x y
    using loop_sleep_step [of x y 4096 w "timeout * 1000" start_time READ_TIMEOUT]
    by (simp add: READ_TIMEOUT_def)
  done

declare read_loop.simps [simp del]

section \<open>The session manager\<close>

text \<open>
  An operation takes the session and the environment and returns both with its result:
  \<open>Inr\<close> a value, or \<open>Inl\<close> the exception it raises. Logging is left out. The lock of
  \<open>_ensure_connection\<close> is always free, since one caller runs at a time.
\<close>

type_synonym 'a outcome = "(exn + 'a) \<times> session \<times> world"

definition seq ::
  "(session \<times> world \<Rightarrow> unit outcome) \<Rightarrow> (session \<times> world \<Rightarrow> 'a outcome)
     \<Rightarrow> session \<times> world \<Rightarrow> 'a outcome"
where
  "seq f g sw = (case f sw of (Inl e, s, w) \<Rightarrow> (Inl e, s, w) | (Inr u, s, w) \<Rightarrow> g (s, w))"

subsection \<open>stop\<close>

text \<open>
  \<open>stop\<close> kills the child when \<open>shell_pid\<close> is set, and only \<open>ProcessLookupError\<close> is
  suppressed there; it closes each descriptor that is not \<open>None\<close>, a failing close being
  logged; then it resets the four fields.
\<close>

fun stop :: "session \<times> world \<Rightarrow> unit outcome" where
  "stop (s, w) =
     (case (if truthy (shell_pid s) then os_kill w else (KillOk, w)) of
        (KillNotPermitted, w1) \<Rightarrow> (Inl PermissionError, s, w1)
      | (KillNoProcess, w1) \<Rightarrow>
          (Inr (),
           s\<lparr>master_fd := None, slave_fd := None, shell_pid := None, process_alive := False\<rparr>,
           (let w2 = (if master_fd s = None then w1 else snd (os_close w1))
            in if slave_fd s = None then w2 else snd (os_close w2)))
      | (KillOk, w1) \<Rightarrow>
          (Inr (),
           s\<lparr>master_fd := None, slave_fd := None, shell_pid := None, process_alive := False\<rparr>,
           (let w2 = (if master_fd s = None then w1 else snd (os_close w1))
            in if slave_fd s = None then w2 else snd (os_close w2))))"

subsection \<open>start\<close>

fun clear_initial_output :: "session \<times> world \<Rightarrow> unit outcome" where
  "clear_initial_output (s, w) =
     (if truthy (master_fd s) \<and> process_alive s then (Inr (), s, clear_loop (now w) w)
      else (Inr (), s, w))"

fun verify_shell :: "session \<times> world \<Rightarrow> bool \<times> world" where
  "verify_shell (s, w) =
     (if master_fd s = None then (False, w)
      else if process_alive s then
        (case os_write (ascii ''echo 'shell_test'\<newline>'') w of
           (None, w1) \<Rightarrow> (False, w1)
         | (Some written, w1) \<Rightarrow> verify_loop (now w1) w1)
      else (False, w))"

text \<open>The steps of the \<open>try\<close> block of \<open>start\<close> after the first \<open>stop\<close>, in order.\<close>

fun open_pty :: "session \<times> world \<Rightarrow> unit outcome" where
  "open_pty (s, w) =
     (case os_openpty w of
        (Pty m sl, w1) \<Rightarrow> (Inr (), s\<lparr>master_fd := Some m, slave_fd := Some sl\<rparr>, w1)
      | (PtyFail, w1) \<Rightarrow> (Inl OSError, s, w1))"

fun disable_echo :: "session \<times> world \<Rightarrow> unit outcome" where
  "disable_echo (s, w) =
     (case os_ctl w of
        (True, w1) \<Rightarrow> (Inl TermiosError, s, w1)
      | (False, w1) \<Rightarrow>
          (case os_ctl w1 of
             (True, w2) \<Rightarrow> (Inl TermiosError, s, w2)
           | (False, w2) \<Rightarrow> (Inr (), s, w2)))"

fun set_terminal_size :: "session \<times> world \<Rightarrow> unit outcome" where
  "set_terminal_size (s, w) =
     (if master_fd s = None then (Inr (), s, w)
      else (case os_ctl w of
              (True, w1) \<Rightarrow> (Inl OSError, s, w1)
            | (False, w1) \<Rightarrow> (Inr (), s, w1)))"

fun fork_shell :: "session \<times> world \<Rightarrow> unit outcome" where
  "fork_shell (s, w) =
     (case os_fork w of
        (Forked n, w1) \<Rightarrow> (Inr (), s\<lparr>shell_pid := Some (Suc n)\<rparr>, w1)
      | (ForkFail, w1) \<Rightarrow> (Inl OSError, s, w1))"

fun close_slave :: "session \<times> world \<Rightarrow> unit outcome" where
  "close_slave (s, w) =
     (if slave_fd s = None then (Inr (), s, w)
      else (case os_close w of
              (True, w1) \<Rightarrow> (Inl OSError, s, w1)
            | (False, w1) \<Rightarrow> (Inr (), s\<lparr>slave_fd := None\<rparr>, w1)))"

fun mark_alive :: "session \<times> world \<Rightarrow> unit outcome" where
  "mark_alive (s, w) = (Inr (), s\<lparr>process_alive := True\<rparr>, w)"

fun set_nonblocking :: "session \<times> world \<Rightarrow> unit outcome" where
  "set_nonblocking (s, w) =
     (if master_fd s = None then (Inr (), s, w)
      else (case os_ctl w of
              (True, w1) \<Rightarrow> (Inl OSError, s, w1)
            | (False, w1) \<Rightarrow>
                (case os_ctl w1 of
                   (True, w2) \<Rightarrow> (Inl OSError, s, w2)
                 | (False, w2) \<Rightarrow> (Inr (), s, w2))))"

fun wait_for_shell :: "session \<times> world \<Rightarrow> unit outcome" where
  "wait_for_shell (s, w) =
     (case verify_shell (s, sleep 500 w) of
        (True, w1) \<Rightarrow> (Inr (), s, w1)
      | (False, w1) \<Rightarrow> (Inl (RuntimeError ShellInitFailed), s, w1))"

definition start_body :: "session \<times> world \<Rightarrow> unit outcome" where
  "start_body =
     seq stop (seq open_pty (seq disable_echo (seq set_terminal_size (seq fork_shell
       (seq close_slave (seq mark_alive (seq set_nonblocking (seq wait_for_shell
          clear_initial_output))))))))"

text \<open>
  \<open>start\<close>: the \<open>try\<close> block, and on any exception \<open>stop\<close> and the same exception
  again; an exception of that \<open>stop\<close> replaces it.
\<close>

definition start :: "session \<times> world \<Rightarrow> unit outcome" where
  "start sw =
     (case start_body sw of
        (Inr u, s1, w1) \<Rightarrow> (Inr u, s1, w1)
      | (Inl e, s1, w1) \<Rightarrow>
          (case stop (s1, w1) of
             (Inr u, s2, w2) \<Rightarrow> (Inl e, s2, w2)
           | (Inl e2, s2, w2) \<Rightarrow> (Inl e2, s2, w2)))"

subsection \<open>Ensuring the connection\<close>

text \<open>
  \<open>reconnect\<close> is the block under the lock: past the budget it answers \<open>False\<close>;
  otherwise it counts the attempt, stops, sleeps a second and starts, and any exception
  of these makes the answer \<open>False\<close>.
\<close>

fun reconnect :: "session \<times> world \<Rightarrow> bool outcome" where
  "reconnect (s, w) =
     (if MAX_RECONNECT_ATTEMPTS \<le> reconnect_attempts s then (Inr False, s, w)
      else
        (case stop (s\<lparr>reconnect_attempts := reconnect_attempts s + 1\<rparr>, w) of
           (Inl e, s1, w1) \<Rightarrow> (Inr False, s1, w1)
         | (Inr u, s1, w1) \<Rightarrow>
             (case start (s1, sleep 1000 w1) of
                (Inl e, s2, w2) \<Rightarrow> (Inr False, s2, w2)
              | (Inr u, s2, w2) \<Rightarrow>
                  if process_alive s2 then (Inr True, s2\<lparr>reconnect_attempts := 0\<rparr>, w2)
                  else (Inr False, s2, w2))))"

fun ensure_connection :: "session \<times> world \<Rightarrow> bool outcome" where
  "ensure_connection (s, w) =
     (if process_alive s \<and> truthy (shell_pid s) then
        (case os_kill w of
           (KillOk, w1) \<Rightarrow> (Inr True, s, w1)
         | (KillNoProcess, w1) \<Rightarrow> reconnect (s\<lparr>process_alive := False\<rparr>, w1)
         | (KillNotPermitted, w1) \<Rightarrow> (Inl PermissionError, s, w1))
      else reconnect (s, w))"

subsection \<open>Reading and executing\<close>

fun read_terminal_output :: "int \<Rightarrow> session \<times> world \<Rightarrow> (exn + pystr) \<times> world" where
  "read_terminal_output timeout (s, w) =
     (if truthy (master_fd s) \<and> process_alive s
      then read_loop timeout (now w) (now w) 0 [] [] s w
      else (Inl (RuntimeError NotStarted), w))"

text \<open>
  \<open>_retrieve_command_output\<close> reads, and raises a \<open>TimeoutError\<close> of the read again
  after logging it.
\<close>

fun retrieve_command_output :: "int \<Rightarrow> session \<times> world \<Rightarrow> (exn + pystr) \<times> world" where
  "retrieve_command_output timeout sw = read_terminal_output timeout sw"

fun send_command_to_terminal :: "pystr \<Rightarrow> session \<times> world \<Rightarrow> unit outcome" where
  "send_command_to_terminal command (s, w) =
     (case utf8_encode (command @ [10]) of
        None \<Rightarrow> (Inl UnicodeEncodeError, s, w)
      | Some cmd_bytes \<Rightarrow>
          (case os_write cmd_bytes w of
             (None, w1) \<Rightarrow> (Inl OSError, s, w1)
           | (Some written, w1) \<Rightarrow>
               if written = length cmd_bytes then (Inr (), s, w1)
               else (Inl (RuntimeError (ShortWrite written (length cmd_bytes))), s, w1)))"

text \<open>
  \<open>_get_current_directory\<close>: the write of the probe stands before the \<open>try\<close>; the
  handler covers the read and the cleaning.
\<close>

fun get_current_directory :: "session \<times> world \<Rightarrow> pystr outcome" where
  "get_current_directory (s, w) =
     (if master_fd s = None then (Inr (working_dir s), s, w)
      else
        (case os_write (ascii ''pwd\<newline>'') w of
           (None, w1) \<Rightarrow> (Inl OSError, s, w1)
         | (Some written, w1) \<Rightarrow>
             (case read_terminal_output 5 (s, w1) of
                (Inl e, w2) \<Rightarrow> (Inr (working_dir s), s, w2)
              | (Inr output, w2) \<Rightarrow>
                  if clean_output (ascii ''pwd\<newline>'') output = []
                  then (Inr (working_dir s), s, w2)
                  else (Inr (strip (clean_output (ascii ''pwd\<newline>'') output)), s, w2))))"

text \<open>
  One pass of the body of the \<open>for\<close> loop of \<open>execute_command\<close>.
  \<open>_validate_cleaned_output\<close> only logs.
\<close>

fun attempt :: "pystr \<Rightarrow> int \<Rightarrow> session \<times> world \<Rightarrow> (pystr \<times> pystr) outcome" where
  "attempt command timeout (s, w) =
     (case ensure_connection (s, w) of
        (Inl e, s1, w1) \<Rightarrow> (Inl e, s1, w1)
      | (Inr False, s1, w1) \<Rightarrow> (Inl (RuntimeError ConnectFailed), s1, w1)
      | (Inr True, s1, w1) \<Rightarrow>
          (case clear_initial_output (s1, w1) of
             (Inl e, s2, w2) \<Rightarrow> (Inl e, s2, w2)
           | (Inr u, s2, w2) \<Rightarrow>
               if master_fd s2 = None then (Inl (RuntimeError FdIsNone), s2, w2)
               else
                 (case send_command_to_terminal command (s2, w2) of
                    (Inl e, s3, w3) \<Rightarrow> (Inl e, s3, w3)
                  | (Inr u, s3, w3) \<Rightarrow>
                      (case retrieve_command_output timeout (s3, w3) of
                         (Inl e, w4) \<Rightarrow> (Inl e, s3, w4)
                       | (Inr output, w4) \<Rightarrow>
                           (case get_current_directory (s3, w4) of
                              (Inl e, s5, w5) \<Rightarrow> (Inl e, s5, w5)
                            | (Inr cwd, s5, w5) \<Rightarrow>
                                (Inr (cwd, clean_output command output), s5, w5))))))"

text \<open>
  The part of a pass that ends with the read of the command's output: the statements of
  the \<open>try\<close> block up to \<open>output = await self._retrieve_command_output(timeout)\<close>.
  It gives what the read returned, before the directory is asked for and the output
  cleaned.
\<close>

fun pass_read :: "pystr \<Rightarrow> int \<Rightarrow> session \<times> world \<Rightarrow> pystr outcome" where
  "pass_read command timeout (s, w) =
     (case ensure_connection (s, w) of
        (Inl e, s1, w1) \<Rightarrow> (Inl e, s1, w1)
      | (Inr False, s1, w1) \<Rightarrow> (Inl (RuntimeError ConnectFailed), s1, w1)
      | (Inr True, s1, w1) \<Rightarrow>
          (case clear_initial_output (s1, w1) of
             (Inl e, s2, w2) \<Rightarrow> (Inl e, s2, w2)
           | (Inr u, s2, w2) \<Rightarrow>
               if master_fd s2 = None then (Inl (RuntimeError FdIsNone), s2, w2)
               else
                 (case send_command_to_terminal command (s2, w2) of
                    (Inl e, s3, w3) \<Rightarrow> (Inl e, s3, w3)
                  | (Inr u, s3, w3) \<Rightarrow>
                      (case retrieve_command_output timeout (s3, w3) of
                         (Inl e, w4) \<Rightarrow> (Inl e, s3, w4)
                       | (Inr output, w4) \<Rightarrow> (Inr output, s3, w4)))))"

text \<open>
  \<open>execute_command\<close>: two passes. An \<open>OSError\<close> or \<open>RuntimeError\<close> of the first pass
  is caught; the loop sleeps a second and goes on. What the second pass returns or raises
  is the result. Any other exception leaves at once.
\<close>

fun execute_command :: "pystr \<Rightarrow> int \<Rightarrow> session \<times> world \<Rightarrow> (pystr \<times> pystr) outcome" where
  "execute_command command timeout (s, w) =
     (case attempt command timeout (s, w) of
        (Inr r, s1, w1) \<Rightarrow> (Inr r, s1, w1)
      | (Inl e, s1, w1) \<Rightarrow>
          if is_OSError e then attempt command timeout (s1, sleep 1000 w1)
          else if is_RuntimeError e then attempt command timeout (s1, sleep 1000 w1)
          else (Inl e, s1, w1))"

subsection \<open>Sequences of public operations\<close>

datatype operation = Start | Stop | Execute pystr int

fun apply_op :: "operation \<Rightarrow> session \<times> world \<Rightarrow> session \<times> world" where
  "apply_op Start sw = snd (start sw)"
| "apply_op Stop sw = snd (stop sw)"
| "apply_op (Execute command timeout) sw = snd (execute_command command timeout sw)"

fun run :: "operation list \<Rightarrow> session \<times> world \<Rightarrow> session \<times> world" where
  "run [] sw = sw"
| "run (x # xs) sw = run xs (apply_op x sw)"

text \<open>The equations of the operations are unfolded on demand only.\<close>

declare stop.simps [simp del]
declare verify_shell.simps [simp del]
declare reconnect.simps [simp del]
declare ensure_connection.simps [simp del]
declare read_terminal_output.simps [simp del]
declare get_current_directory.simps [simp del]
declare attempt.simps [simp del]
declare pass_read.simps [simp del]
declare execute_command.simps [simp del]

section \<open>Predicates on sessions\<close>

text \<open>The not-alive state of the four fields that \<open>stop\<close> resets.\<close>

definition reset :: "session \<Rightarrow> session" where
  "reset s = s\<lparr>master_fd := None, slave_fd := None, shell_pid := None, process_alive := False\<rparr>"

definition stopped :: "session \<Rightarrow> bool" where
  "stopped s =
     (master_fd s = None \<and> slave_fd s = None \<and> shell_pid s = None \<and> \<not> process_alive s)"

text \<open>
  What every state reached by the public operations satisfies: a session marked alive
  has its master descriptor, and the reconnection counter is within its budget.
\<close>

definition well_kept :: "session \<Rightarrow> bool" where
  "well_kept s = ((process_alive s \<longrightarrow> master_fd s \<noteq> None) \<and> reconnect_attempts s \<le> 3)"

definition handle_kept :: "nat \<Rightarrow> session \<Rightarrow> bool" where
  "handle_kept n s = ((process_alive s \<longrightarrow> master_fd s \<noteq> None) \<and> reconnect_attempts s = n)"

definition handle_open :: "nat \<Rightarrow> session \<Rightarrow> bool" where
  "handle_open n s = (master_fd s \<noteq> None \<and> reconnect_attempts s = n)"

text \<open>
  \<open>holds P f Q E\<close>: started in a session with \<open>P\<close>, the operation \<open>f\<close> leaves a session
  with \<open>Q\<close> when it returns and one with \<open>E\<close> when it raises, whatever the environment.
\<close>

definition holds ::
  "(session \<Rightarrow> bool) \<Rightarrow> (session \<times> world \<Rightarrow> 'a outcome) \<Rightarrow> (session \<Rightarrow> bool)
     \<Rightarrow> (session \<Rightarrow> bool) \<Rightarrow> bool"
where
  "holds P f Q E =
     (\<forall>s w. P s \<longrightarrow> (case f (s, w) of (Inl e, s', w') \<Rightarrow> E s' | (Inr a, s', w') \<Rightarrow> Q s'))"

section \<open>Scenarios\<close>

text \<open>
  A session that was never started, in the directory \<open>/srv\<close>; the session a successful
  \<open>start\<close> leaves (descriptor 3, child 100); an environment in which nothing is there to
  read and no pseudo-terminal can be had; and one in which \<open>start\<close> succeeds once: the
  shell answers the probe of \<open>_verify_shell\<close> and prints its prompt.
\<close>

definition fresh :: session where
  "fresh = init (ascii ''/srv'')"

definition live :: session where
  "live = \<lparr>working_dir = ascii ''/srv'', master_fd = Some 3, slave_fd = None,
            shell_pid = Some 100, process_alive = True, reconnect_attempts = 0\<rparr>"

definition idle :: world where
  "idle = \<lparr>now = 0, reads = [], writes = [], kills = [], closes = [], ptys = [], ctls = [],
            forks = []\<rparr>"

definition healthy :: world where
  "healthy = idle\<lparr>ptys := [Pty 3 4], forks := [Forked 99],
                   reads := [(0, ReadData (ascii ''shell_test\<newline>$ ''))]\<rparr>"

text \<open>Output \<open>A\<close> at once and \<open>B\<close> three seconds later.\<close>

definition two_bursts :: world where
  "two_bursts = idle\<lparr>reads := [(0, ReadData (ascii ''A'')), (3000, ReadData (ascii ''B''))]\<rparr>"

text \<open>Fifty reads in a row that return no bytes.\<close>

definition fifty_empty_reads :: world where
  "fifty_empty_reads = idle\<lparr>reads := replicate 50 (0, ReadData [])\<rparr>"

text \<open>A shell whose answer is there 4.1 s after the call, too late for a timeout of 1 s.\<close>

definition late_answer :: world where
  "late_answer = idle\<lparr>reads := [(4100, ReadData (ascii ''hello\<newline>''))]\<rparr>"

text \<open>The first \<open>pty.openpty\<close> fails, the second succeeds, and the shell answers.\<close>

definition second_start_works :: world where
  "second_start_works =
     idle\<lparr>ptys := [PtyFail, Pty 3 4], forks := [Forked 99],
          reads := [(0, ReadData (ascii ''shell_test\<newline>$ '')),
                    (6000, ReadData (ascii ''hello\<newline>''))]\<rparr>"

text \<open>
  Three failing \<open>pty.openpty\<close> calls, then one that works, with a shell that answers;
  and the same with the child of the session then started gone at the next liveness
  probe.
\<close>

definition three_failures_then_start :: world where
  "three_failures_then_start =
     idle\<lparr>ptys := [PtyFail, PtyFail, PtyFail, Pty 3 4], forks := [Forked 99],
          reads := [(0, ReadData (ascii ''shell_test\<newline>$ ''))]\<rparr>"

definition three_failures_then_death :: world where
  "three_failures_then_death = three_failures_then_start\<lparr>kills := [KillNoProcess]\<rparr>"

text \<open>A shell that answers the command with two lines.\<close>

definition two_lines :: world where
  "two_lines = idle\<lparr>reads := [(1000, ReadData (ascii ''secret\<newline>shown\<newline>''))]\<rparr>"

text \<open>
  The command is written and answered in both passes; the write of the \<open>pwd\<close> probe
  fails in both.
\<close>

definition probe_write_fails :: world where
  "probe_write_fails =
     idle\<lparr>writes := [WriteAll, WriteFail, WriteAll, WriteFail],
          reads := [(1000, ReadData (ascii ''a.txt\<newline>'')),
                    (4100, ReadData (ascii ''a.txt\<newline>''))]\<rparr>"

section \<open>Properties of the cleaner\<close>

lemmas cleaner_defs =
  clean_output_def ascii_def drop_command_line_def filter_lines_def keep_line_def
  strip_def is_space_def is_linebreak_def prompt_markers_def

lemma py_in_empty: "py_in [] hay"
  by (cases hay) simp_all

text \<open>
  C1. For the command \<open>cmd\<close> and the raw output \<open>cmd\n$ cmd\nhello\n$ \<close> the cleaner
  does not return \<open>hello\<close>: the last line \<open>$ \<close> is stripped to \<open>$\<close> before the
  markers are looked for, \<open>$\<close> holds none of \<open>$ \<close>, \<open># \<close>, \<open>> \<close>, and the line stays.
  The cleaner returns \<open>hello\n$\<close>.
\<close>

theorem clean_output_keeps_bare_prompt:
  "clean_output (ascii ''cmd'') (ascii ''cmd\<newline>$ cmd\<newline>hello\<newline>$ '')
     = ascii ''hello\<newline>$''"
  by (simp add: cleaner_defs)

section \<open>Evaluation and the invariant of the public operations\<close>

lemmas eval_simps =
  stop.simps verify_shell.simps reconnect.simps ensure_connection.simps
  read_terminal_output.simps get_current_directory.simps attempt.simps execute_command.simps
  pass_read.simps
  read_loop.simps clear_loop.simps verify_loop.simps
  os_read_def os_write_def os_kill_def os_close_def os_openpty_def os_ctl_def os_fork_def
  sleep_def finish_def utf8_decode_def utf8_decode_replace_def utf8_scan.simps is_cont_def
  second_ok_def utf8_encode_cp_def MAX_READ_RETRIES_def READ_TIMEOUT_def
  MAX_RECONNECT_ATTEMPTS_def seq_def start_def start_body_def init_def reset_def stopped_def
  fresh_def live_def idle_def healthy_def two_bursts_def fifty_empty_reads_def late_answer_def
  second_start_works_def three_failures_then_start_def three_failures_then_death_def
  probe_write_fails_def two_lines_def cleaner_defs

lemma start_fresh: "start (fresh, healthy) = (Inr (), live, idle\<lparr>now := 1500\<rparr>)"
  by (simp add: eval_simps)

lemma stop_cases:
  "stop (s, w) = (r, s', w')
     \<Longrightarrow> (r = Inl PermissionError \<and> s' = s) \<or> (r = Inr () \<and> s' = reset s)"
  by (auto simp: stop.simps reset_def split: prod.splits kill_result.splits if_splits)

lemma holdsI:
  "(\<And>s w e s' w'. P s \<Longrightarrow> f (s, w) = (Inl e, s', w') \<Longrightarrow> E s')
   \<Longrightarrow> (\<And>s w a s' w'. P s \<Longrightarrow> f (s, w) = (Inr a, s', w') \<Longrightarrow> Q s')
   \<Longrightarrow> holds P f Q E"
  unfolding holds_def by (auto split: prod.splits sum.splits)

lemma holds_raises:
  assumes "holds P f Q E" and "P s" and "f (s, w) = (Inl e, s', w')"
  shows "E s'"
  using assms(1) [unfolded holds_def, rule_format, OF assms(2), of w] assms(3) by simp

lemma holds_returns:
  assumes "holds P f Q E" and "P s" and "f (s, w) = (Inr a, s', w')"
  shows "Q s'"
  using assms(1) [unfolded holds_def, rule_format, OF assms(2), of w] assms(3) by simp

lemma holds_seq:
  assumes f: "holds P f Q E" and g: "holds Q g R E"
  shows "holds P (seq f g) R E"
proof (rule holdsI)
  fix s w e s' w'
  assume P: "P s" and r: "seq f g (s, w) = (Inl e, s', w')"
  obtain r1 s1 w1 where f1: "f (s, w) = (r1, s1, w1)" by (cases "f (s, w)") auto
  show "E s'"
  proof (cases r1)
    case (Inl e1)
    with f1 r have "s' = s1" by (simp add: seq_def)
    with holds_raises [OF f P] f1 Inl show ?thesis by simp
  next
    case (Inr u)
    with f1 r have g1: "g (s1, w1) = (Inl e, s', w')" by (simp add: seq_def)
    from holds_returns [OF f P] f1 Inr have "Q s1" by simp
    from holds_raises [OF g this g1] show ?thesis .
  qed
next
  fix s w a s' w'
  assume P: "P s" and r: "seq f g (s, w) = (Inr a, s', w')"
  obtain r1 s1 w1 where f1: "f (s, w) = (r1, s1, w1)" by (cases "f (s, w)") auto
  show "R s'"
  proof (cases r1)
    case (Inl e1)
    with f1 r show ?thesis by (simp add: seq_def)
  next
    case (Inr u)
    with f1 r have g1: "g (s1, w1) = (Inr a, s', w')" by (simp add: seq_def)
    from holds_returns [OF f P] f1 Inr have "Q s1" by simp
    from holds_returns [OF g this g1] show ?thesis .
  qed
qed

lemma handle_open_kept: "handle_open n s \<Longrightarrow> handle_kept n s"
  by (simp add: handle_open_def handle_kept_def)

lemma stop_holds: "holds (handle_kept n) stop (handle_kept n) (handle_kept n)"
proof (rule holdsI)
  fix s w e s' w'
  assume "handle_kept n s" "stop (s, w) = (Inl e, s', w')"
  with stop_cases [of s w "Inl e" s' w'] show "handle_kept n s'" by simp
next
  fix s w a s' w'
  assume "handle_kept n s" "stop (s, w) = (Inr a, s', w')"
  with stop_cases [of s w "Inr a" s' w'] show "handle_kept n s'"
    by (simp add: handle_kept_def reset_def)
qed

lemma open_pty_holds: "holds (handle_kept n) open_pty (handle_open n) (handle_kept n)"
  by (rule holdsI)
     (auto simp: handle_kept_def handle_open_def split: prod.splits openpty_result.splits)

lemma disable_echo_holds: "holds (handle_open n) disable_echo (handle_open n) (handle_kept n)"
  by (rule holdsI)
     (auto simp: handle_kept_def handle_open_def split: prod.splits bool.splits)

lemma set_terminal_size_holds:
  "holds (handle_open n) set_terminal_size (handle_open n) (handle_kept n)"
  by (rule holdsI)
     (auto simp: handle_kept_def handle_open_def split: prod.splits bool.splits if_splits)

lemma fork_shell_holds: "holds (handle_open n) fork_shell (handle_open n) (handle_kept n)"
  by (rule holdsI)
     (auto simp: handle_kept_def handle_open_def split: prod.splits fork_result.splits)

lemma close_slave_holds: "holds (handle_open n) close_slave (handle_open n) (handle_kept n)"
  by (rule holdsI)
     (auto simp: handle_kept_def handle_open_def split: prod.splits bool.splits if_splits)

lemma mark_alive_holds: "holds (handle_open n) mark_alive (handle_open n) (handle_kept n)"
  by (rule holdsI) (auto simp: handle_kept_def handle_open_def)

lemma set_nonblocking_holds:
  "holds (handle_open n) set_nonblocking (handle_open n) (handle_kept n)"
  by (rule holdsI)
     (auto simp: handle_kept_def handle_open_def split: prod.splits bool.splits if_splits)

lemma wait_for_shell_holds:
  "holds (handle_open n) wait_for_shell (handle_open n) (handle_kept n)"
  by (rule holdsI)
     (auto simp: handle_kept_def handle_open_def split: prod.splits bool.splits)

lemma clear_initial_output_holds:
  "holds (handle_open n) clear_initial_output (handle_open n) (handle_kept n)"
  by (rule holdsI) (auto simp: handle_kept_def handle_open_def split: if_splits)

lemma start_body_holds: "holds (handle_kept n) start_body (handle_open n) (handle_kept n)"
  unfolding start_body_def
  by (rule holds_seq [OF stop_holds], rule holds_seq [OF open_pty_holds],
      rule holds_seq [OF disable_echo_holds], rule holds_seq [OF set_terminal_size_holds],
      rule holds_seq [OF fork_shell_holds], rule holds_seq [OF close_slave_holds],
      rule holds_seq [OF mark_alive_holds], rule holds_seq [OF set_nonblocking_holds],
      rule holds_seq [OF wait_for_shell_holds], rule clear_initial_output_holds)

lemma start_holds: "holds (handle_kept n) start (handle_open n) (handle_kept n)"
proof (rule holdsI)
  fix s w e s' w'
  assume P: "handle_kept n s" and r: "start (s, w) = (Inl e, s', w')"
  obtain r1 s1 w1 where b: "start_body (s, w) = (r1, s1, w1)"
    by (cases "start_body (s, w)") auto
  show "handle_kept n s'"
  proof (cases r1)
    case (Inl e1)
    from holds_raises [OF start_body_holds P] b Inl have k: "handle_kept n s1" by simp
    obtain r2 s2 w2 where st: "stop (s1, w1) = (r2, s2, w2)" by (cases "stop (s1, w1)") auto
    from b Inl st r have "s' = s2" by (cases r2) (simp_all add: start_def)
    moreover have "handle_kept n s2"
      using holds_raises [OF stop_holds k, of w1 _ s2 w2]
        holds_returns [OF stop_holds k, of w1 _ s2 w2] st
      by (cases r2) simp_all
    ultimately show ?thesis by simp
  next
    case (Inr u)
    with b r show ?thesis by (simp add: start_def)
  qed
next
  fix s w a s' w'
  assume P: "handle_kept n s" and r: "start (s, w) = (Inr a, s', w')"
  obtain r1 s1 w1 where b: "start_body (s, w) = (r1, s1, w1)"
    by (cases "start_body (s, w)") auto
  show "handle_open n s'"
  proof (cases r1)
    case (Inl e1)
    with b r show ?thesis by (simp add: start_def split: prod.splits sum.splits)
  next
    case (Inr u)
    with b r have "s' = s1" by (simp add: start_def)
    with holds_returns [OF start_body_holds P] b Inr show ?thesis by simp
  qed
qed


lemma well_kept_iff: "well_kept s = (\<exists>n\<le>3. handle_kept n s)"
  by (auto simp: well_kept_def handle_kept_def)

lemma reconnect_exhausted:
  "3 \<le> reconnect_attempts s \<Longrightarrow> reconnect (s, w) = (Inr False, s, w)"
  by (simp add: reconnect.simps MAX_RECONNECT_ATTEMPTS_def)

lemma reconnect_kept:
  assumes k: "handle_kept n s" and n: "n \<le> 3" and r: "reconnect (s, w) = (r, s', w')"
  shows "well_kept s'"
proof (cases "MAX_RECONNECT_ATTEMPTS \<le> reconnect_attempts s")
  case True
  with r have "s' = s" by (simp add: reconnect.simps)
  with k n show ?thesis unfolding well_kept_iff by blast
next
  case False
  let ?s0 = "s\<lparr>reconnect_attempts := reconnect_attempts s + 1\<rparr>"
  from k have k0: "handle_kept (Suc n) ?s0" by (simp add: handle_kept_def)
  from False k have n1: "Suc n \<le> 3" by (simp add: MAX_RECONNECT_ATTEMPTS_def handle_kept_def)
  obtain r1 s1 w1 where st: "stop (?s0, w) = (r1, s1, w1)" by (cases "stop (?s0, w)") auto
  show ?thesis
  proof (cases r1)
    case (Inl e)
    with False st r have "s' = s1" by (simp add: reconnect.simps)
    with holds_raises [OF stop_holds k0] st Inl n1 show ?thesis unfolding well_kept_iff by blast
  next
    case stopped: (Inr u)
    from holds_returns [OF stop_holds k0] st stopped have k1: "handle_kept (Suc n) s1" by simp
    obtain r2 s2 w2 where sr: "start (s1, sleep 1000 w1) = (r2, s2, w2)"
      by (cases "start (s1, sleep 1000 w1)") auto
    show ?thesis
    proof (cases r2)
      case (Inl e)
      with False st stopped sr r have "s' = s2" by (simp add: reconnect.simps)
      with holds_raises [OF start_holds k1] sr Inl n1 show ?thesis
        unfolding well_kept_iff by blast
    next
      case (Inr u2)
      from holds_returns [OF start_holds k1] sr Inr have o: "handle_open (Suc n) s2" by simp
      from False st stopped sr Inr r
      have "s' = s2\<lparr>reconnect_attempts := 0\<rparr> \<or> s' = s2"
        by (simp add: reconnect.simps split: if_splits)
      with o n1 show ?thesis
        by (auto simp: handle_open_def well_kept_def)
    qed
  qed
qed

text \<open>
  What \<open>_ensure_connection\<close> does first: the answer of the liveness probe, when there
  is one, and the session and environment the reconnection block starts from.
\<close>

lemma ensure_connection_cases:
  obtains (alive) w1 where "process_alive s" "truthy (shell_pid s)" "os_kill w = (KillOk, w1)"
      "ensure_connection (s, w) = (Inr True, s, w1)"
  | (refused) w1 where "process_alive s" "truthy (shell_pid s)"
      "os_kill w = (KillNotPermitted, w1)"
      "ensure_connection (s, w) = (Inl PermissionError, s, w1)"
  | (gone) w1 where "process_alive s" "truthy (shell_pid s)" "os_kill w = (KillNoProcess, w1)"
      "ensure_connection (s, w) = reconnect (s\<lparr>process_alive := False\<rparr>, w1)"
  | (dead) "\<not> (process_alive s \<and> truthy (shell_pid s))"
      "ensure_connection (s, w) = reconnect (s, w)"
proof (cases "process_alive s \<and> truthy (shell_pid s)")
  case False
  then show ?thesis by (intro dead) (auto simp: ensure_connection.simps)
next
  case True
  obtain kr w1 where ok: "os_kill w = (kr, w1)" by (cases "os_kill w") auto
  show ?thesis
  proof (cases kr)
    case KillOk
    with True ok show ?thesis by (intro alive [of w1]) (simp_all add: ensure_connection.simps)
  next
    case KillNotPermitted
    with True ok show ?thesis by (intro refused [of w1]) (simp_all add: ensure_connection.simps)
  next
    case KillNoProcess
    with True ok show ?thesis by (intro gone [of w1]) (simp_all add: ensure_connection.simps)
  qed
qed

lemma ensure_connection_kept:
  assumes k: "well_kept s" and r: "ensure_connection (s, w) = (r, s', w')"
  shows "well_kept s'"
proof (cases rule: ensure_connection_cases [of s w])
  case (alive w1)
  with k r show ?thesis by simp
next
  case (refused w1)
  with k r show ?thesis by simp
next
  case (gone w1)
  with r have "reconnect (s\<lparr>process_alive := False\<rparr>, w1) = (r, s', w')" by simp
  moreover from k have "handle_kept (reconnect_attempts s) (s\<lparr>process_alive := False\<rparr>)"
    "reconnect_attempts s \<le> 3"
    by (simp_all add: well_kept_def handle_kept_def)
  ultimately show ?thesis by (rule reconnect_kept [rotated 2])
next
  case dead
  with r have "reconnect (s, w) = (r, s', w')" by simp
  moreover from k have "handle_kept (reconnect_attempts s) s" "reconnect_attempts s \<le> 3"
    by (simp_all add: well_kept_def handle_kept_def)
  ultimately show ?thesis by (rule reconnect_kept [rotated 2])
qed

lemma ensure_connection_stuck:
  assumes k: "handle_kept 3 s"
  shows "handle_kept 3 (fst (snd (ensure_connection (s, w))))"
proof (cases rule: ensure_connection_cases [of s w])
  case (alive w1)
  with k show ?thesis by simp
next
  case (refused w1)
  with k show ?thesis by simp
next
  case (gone w1)
  moreover from k have "3 \<le> reconnect_attempts (s\<lparr>process_alive := False\<rparr>)"
    by (simp add: handle_kept_def)
  ultimately show ?thesis
    using k reconnect_exhausted [of "s\<lparr>process_alive := False\<rparr>" w1]
    by (simp add: handle_kept_def)
next
  case dead
  moreover from k have "3 \<le> reconnect_attempts s" by (simp add: handle_kept_def)
  ultimately show ?thesis using k reconnect_exhausted [of s w] by simp
qed

lemma get_current_directory_result: "\<exists>r w'. get_current_directory (s, w) = (r, s, w')"
  by (simp add: get_current_directory.simps split: prod.splits option.splits sum.splits)

lemma send_command_result: "\<exists>r w'. send_command_to_terminal command (s, w) = (r, s, w')"
  by (simp split: prod.splits option.splits)

lemma clear_initial_output_result: "\<exists>w'. clear_initial_output (s, w) = (Inr (), s, w')"
  by simp

lemma attempt_session:
  "fst (snd (attempt command timeout (s, w))) = fst (snd (ensure_connection (s, w)))"
proof -
  obtain r1 s1 w1 where e: "ensure_connection (s, w) = (r1, s1, w1)"
    by (cases "ensure_connection (s, w)") auto
  have "fst (snd (attempt command timeout (s, w))) = s1"
  proof (cases r1)
    case (Inl x)
    with e show ?thesis by (simp add: attempt.simps)
  next
    case (Inr ok)
    show ?thesis
    proof (cases ok)
      case False
      with e Inr show ?thesis by (simp add: attempt.simps)
    next
      case True
      obtain w2 where c: "clear_initial_output (s1, w1) = (Inr (), s1, w2)"
        using clear_initial_output_result by blast
      show ?thesis
      proof (cases "master_fd s1 = None")
        case True
        with e Inr \<open>ok\<close> c show ?thesis by (simp add: attempt.simps)
      next
        case False
        obtain r3 w3 where sc: "send_command_to_terminal command (s1, w2) = (r3, s1, w3)"
          using send_command_result by blast
        show ?thesis
        proof (cases r3)
          case (Inl x)
          with e Inr \<open>ok\<close> c False sc show ?thesis by (simp add: attempt.simps)
        next
          case sent: (Inr u)
          obtain r4 w4 where rd: "read_terminal_output timeout (s1, w3) = (r4, w4)"
            by (cases "read_terminal_output timeout (s1, w3)") auto
          show ?thesis
          proof (cases r4)
            case (Inl x)
            with e Inr \<open>ok\<close> c False sc sent rd show ?thesis by (simp add: attempt.simps)
          next
            case got: (Inr out)
            obtain r5 w5 where g: "get_current_directory (s1, w4) = (r5, s1, w5)"
              using get_current_directory_result by blast
            with e Inr \<open>ok\<close> c False sc sent rd got show ?thesis
              by (cases r5) (simp_all add: attempt.simps)
          qed
        qed
      qed
    qed
  qed
  with e show ?thesis by simp
qed

text \<open>The session \<open>execute_command\<close> leaves is the one its last pass left.\<close>

lemma execute_command_session:
  "fst (snd (execute_command command timeout (s, w)))
     = fst (snd (attempt command timeout (s, w)))
   \<or> (\<exists>w1. fst (snd (execute_command command timeout (s, w)))
             = fst (snd (attempt command timeout (fst (snd (attempt command timeout (s, w))), w1))))"
proof -
  obtain r1 s1 w1 where a: "attempt command timeout (s, w) = (r1, s1, w1)"
    by (cases "attempt command timeout (s, w)") auto
  show ?thesis
  proof (cases r1)
    case (Inr v)
    with a show ?thesis by (simp add: execute_command.simps)
  next
    case (Inl e)
    show ?thesis
    proof (cases "is_OSError e \<or> is_RuntimeError e")
      case True
      with a Inl have "execute_command command timeout (s, w)
          = attempt command timeout (s1, sleep 1000 w1)"
        by (auto simp: execute_command.simps)
      with a show ?thesis by auto
    next
      case False
      with a Inl show ?thesis by (simp add: execute_command.simps)
    qed
  qed
qed

lemma attempt_kept: "well_kept s \<Longrightarrow> well_kept (fst (snd (attempt command timeout (s, w))))"
  using ensure_connection_kept [of s w "fst (ensure_connection (s, w))"
          "fst (snd (ensure_connection (s, w)))" "snd (snd (ensure_connection (s, w)))"]
  by (simp add: attempt_session)

lemma attempt_stuck:
  "handle_kept 3 s \<Longrightarrow> handle_kept 3 (fst (snd (attempt command timeout (s, w))))"
  by (simp add: attempt_session ensure_connection_stuck)

lemma execute_command_kept:
  assumes "well_kept s"
  shows "well_kept (fst (snd (execute_command command timeout (s, w))))"
  using execute_command_session [of command timeout s w] attempt_kept [OF assms]
    attempt_kept [OF attempt_kept [OF assms]]
  by auto

lemma execute_command_stuck:
  assumes "handle_kept 3 s"
  shows "handle_kept 3 (fst (snd (execute_command command timeout (s, w))))"
  using execute_command_session [of command timeout s w] attempt_stuck [OF assms]
    attempt_stuck [OF attempt_stuck [OF assms]]
  by auto

lemma stop_stuck: "handle_kept n s \<Longrightarrow> handle_kept n (fst (snd (stop (s, w))))"
  using stop_cases [of s w "fst (stop (s, w))" "fst (snd (stop (s, w)))" "snd (snd (stop (s, w)))"]
  by (auto simp: handle_kept_def reset_def)

lemma start_stuck:
  assumes k: "handle_kept n s"
  shows "handle_kept n (fst (snd (start (s, w))))"
proof -
  obtain r1 s1 w1 where a: "start (s, w) = (r1, s1, w1)" by (cases "start (s, w)") auto
  have "handle_kept n s1"
    using holds_raises [OF start_holds k, of w _ s1 w1]
      holds_returns [OF start_holds k, of w _ s1 w1] a
    by (cases r1) (simp_all add: handle_open_kept)
  with a show ?thesis by simp
qed

lemma stop_kept: "well_kept s \<Longrightarrow> well_kept (fst (snd (stop (s, w))))"
  using stop_stuck [of "reconnect_attempts s" s w]
  by (simp add: well_kept_def handle_kept_def)

lemma start_kept: "well_kept s \<Longrightarrow> well_kept (fst (snd (start (s, w))))"
  using start_stuck [of "reconnect_attempts s" s w]
  by (simp add: well_kept_def handle_kept_def)

lemma apply_op_kept: "well_kept (fst sw) \<Longrightarrow> well_kept (fst (apply_op x sw))"
  by (cases sw; cases x) (simp_all add: start_kept stop_kept execute_command_kept)

lemma run_kept: "well_kept (fst sw) \<Longrightarrow> well_kept (fst (run ops sw))"
  by (induction ops arbitrary: sw) (simp_all add: apply_op_kept)

lemma apply_op_stuck: "handle_kept 3 (fst sw) \<Longrightarrow> handle_kept 3 (fst (apply_op x sw))"
  by (cases sw; cases x) (simp_all add: start_stuck stop_stuck execute_command_stuck)

lemma run_stuck: "handle_kept 3 (fst sw) \<Longrightarrow> handle_kept 3 (fst (run ops sw))"
  by (induction ops arbitrary: sw) (simp_all add: apply_op_stuck)

lemma init_kept: "well_kept (init dir)"
  by (simp add: well_kept_def init_def)


section \<open>stop\<close>

text \<open>
  C5. \<open>stop\<close> is not free of exceptions whatever happens while the child is killed: a
  kill that is refused raises \<open>PermissionError\<close>, which \<open>stop\<close> does not suppress, and
  the fields stay as they were.
\<close>

theorem stop_raises_on_refused_kill:
  "stop (live, idle\<lparr>kills := [KillNotPermitted]\<rparr>) = (Inl PermissionError, live, idle)"
  by (simp add: eval_simps)

text \<open>
  C5, as amended. On a session that was never started or is already stopped, \<open>stop\<close>
  returns and changes nothing, neither the session nor the environment, so repeated calls
  are safe. On any session, \<open>stop\<close> raises only when the session has a child and the
  kill is refused with an error other than "no such process"; then the fields stay as they
  were. In every other case, whether the child was killed or was already gone and whether
  or not the closes of the descriptors fail, \<open>stop\<close> returns and all four fields are in
  the not-alive state.
\<close>

theorem stop_resets:
  "(stopped s \<longrightarrow> stop (s, w) = (Inr (), s, w))
   \<and> (truthy (shell_pid s) \<and> fst (os_kill w) = KillNotPermitted
        \<longrightarrow> fst (stop (s, w)) = Inl PermissionError \<and> fst (snd (stop (s, w))) = s)
   \<and> (\<not> (truthy (shell_pid s) \<and> fst (os_kill w) = KillNotPermitted)
        \<longrightarrow> fst (stop (s, w)) = Inr () \<and> fst (snd (stop (s, w))) = reset s
            \<and> stopped (fst (snd (stop (s, w)))))"
proof -
  obtain kr w1 where k: "os_kill w = (kr, w1)" by (cases "os_kill w") auto
  have quiet: "stop (s, w) = (Inr (), s, w)" if "stopped s"
  proof -
    from that have "reset s = s" by (cases s) (simp add: stopped_def reset_def)
    with that show ?thesis by (simp add: stop.simps stopped_def reset_def)
  qed
  have refused: "stop (s, w) = (Inl PermissionError, s, w1)"
    if "truthy (shell_pid s) \<and> fst (os_kill w) = KillNotPermitted"
    using that k by (simp add: stop.simps)
  have resets: "fst (stop (s, w)) = Inr () \<and> fst (snd (stop (s, w))) = reset s"
    if "\<not> (truthy (shell_pid s) \<and> fst (os_kill w) = KillNotPermitted)"
  proof (cases "truthy (shell_pid s)")
    case False
    then show ?thesis by (simp add: stop.simps reset_def)
  next
    case True
    with that k have "kr \<noteq> KillNotPermitted" by simp
    with True k show ?thesis by (cases kr) (simp_all add: stop.simps reset_def)
  qed
  have "stopped (reset s)" by (simp add: stopped_def reset_def)
  with quiet refused resets show ?thesis by simp
qed

theorem stop_resets_witness:
  "stopped fresh \<and> stop (fresh, idle) = (Inr (), fresh, idle)
   \<and> truthy (shell_pid live) \<and> fst (os_kill (idle\<lparr>kills := [KillNotPermitted]\<rparr>)) = KillNotPermitted
   \<and> fst (stop (live, idle\<lparr>kills := [KillNotPermitted]\<rparr>)) = Inl PermissionError
   \<and> \<not> (truthy (shell_pid live)
          \<and> fst (os_kill (idle\<lparr>kills := [KillNoProcess], closes := [True]\<rparr>)) = KillNotPermitted)
   \<and> fst (stop (live, idle\<lparr>kills := [KillNoProcess], closes := [True]\<rparr>)) = Inr ()
   \<and> fst (snd (stop (live, idle\<lparr>kills := [KillNoProcess], closes := [True]\<rparr>))) = reset live
   \<and> stopped (fst (snd (stop (live, idle\<lparr>kills := [KillNoProcess], closes := [True]\<rparr>))))"
proof -
  have a: "stopped fresh" by (simp add: eval_simps)
  have b: "truthy (shell_pid live) \<and> fst (os_kill (idle\<lparr>kills := [KillNotPermitted]\<rparr>)) = KillNotPermitted"
    by (simp add: eval_simps)
  have c: "\<not> (truthy (shell_pid live)
          \<and> fst (os_kill (idle\<lparr>kills := [KillNoProcess], closes := [True]\<rparr>)) = KillNotPermitted)"
    by (simp add: eval_simps)
  have 1: "stop (fresh, idle) = (Inr (), fresh, idle)"
    using stop_resets [of fresh idle] a by blast
  have 2: "fst (stop (live, idle\<lparr>kills := [KillNotPermitted]\<rparr>)) = Inl PermissionError"
    using stop_resets [of live "idle\<lparr>kills := [KillNotPermitted]\<rparr>"] b by blast
  have 3: "fst (stop (live, idle\<lparr>kills := [KillNoProcess], closes := [True]\<rparr>)) = Inr ()
      \<and> fst (snd (stop (live, idle\<lparr>kills := [KillNoProcess], closes := [True]\<rparr>))) = reset live
      \<and> stopped (fst (snd (stop (live, idle\<lparr>kills := [KillNoProcess], closes := [True]\<rparr>))))"
    using stop_resets [of live "idle\<lparr>kills := [KillNoProcess], closes := [True]\<rparr>"] c by blast
  from a b c 1 2 3 show ?thesis by blast
qed


section \<open>The reconnection budget\<close>

text \<open>
  C4. After four calls of \<open>_ensure_connection\<close> whose reconnections fail, the counter is
  3 and the session is dead. From then on no simulated success resets the counter: in an
  environment in which \<open>start\<close> succeeds, a fifth call still answers \<open>False\<close> and
  leaves the counter at 3; a public \<open>start\<close> does reconnect the session and leaves the
  counter at 3; and the call after it answers \<open>True\<close> with the counter still at 3.
\<close>

theorem budget_never_recovers:
  "ensure_connection (snd (ensure_connection (snd (ensure_connection (snd (ensure_connection
       (fresh, three_failures_then_start)))))))
     = (Inr False, fresh\<lparr>reconnect_attempts := 3\<rparr>,
        three_failures_then_start\<lparr>now := 3000, ptys := [Pty 3 4]\<rparr>)
   \<and> ensure_connection (fresh\<lparr>reconnect_attempts := 3\<rparr>,
          three_failures_then_start\<lparr>now := 3000, ptys := [Pty 3 4]\<rparr>)
     = (Inr False, fresh\<lparr>reconnect_attempts := 3\<rparr>,
        three_failures_then_start\<lparr>now := 3000, ptys := [Pty 3 4]\<rparr>)
   \<and> start (fresh\<lparr>reconnect_attempts := 3\<rparr>,
          three_failures_then_start\<lparr>now := 3000, ptys := [Pty 3 4]\<rparr>)
     = (Inr (), live\<lparr>reconnect_attempts := 3\<rparr>, idle\<lparr>now := 4500\<rparr>)
   \<and> ensure_connection (live\<lparr>reconnect_attempts := 3\<rparr>, idle\<lparr>now := 4500\<rparr>)
     = (Inr True, live\<lparr>reconnect_attempts := 3\<rparr>, idle\<lparr>now := 4500\<rparr>)"
  by (simp add: eval_simps)

text \<open>
  C4, as amended. In every state reached by public operations the counter is at most 3,
  and a call of \<open>_ensure_connection\<close> keeps it so. A call of \<open>_ensure_connection\<close> on a session that is not alive and whose counter is 3,
  as the fourth call after three failed reconnections is, answers \<open>False\<close> without
  raising and changes nothing. When \<open>_ensure_connection\<close> answers \<open>True\<close>, either the
  liveness probe found the child and the session is unchanged, or a reconnection succeeded
  and the counter is 0. Such a reconnection needs a counter below 3: once the counter is
  3 it stays 3 whatever public operations follow.
\<close>

theorem reconnect_budget:
  "reconnect_attempts (fst (run ops (init dir, w))) \<le> 3
   \<and> (well_kept s \<longrightarrow> reconnect_attempts (fst (snd (ensure_connection (s, w)))) \<le> 3)
   \<and> (reconnect_attempts s = 3 \<and> \<not> process_alive s
        \<longrightarrow> ensure_connection (s, w) = (Inr False, s, w))
   \<and> (ensure_connection (s, w) = (Inr True, s', w')
        \<longrightarrow> (s' = s \<and> process_alive s) \<or> reconnect_attempts s' = 0)
   \<and> (well_kept s \<and> reconnect_attempts s = 3
        \<longrightarrow> reconnect_attempts (fst (run ops (s, w))) = 3)"
proof (intro conjI impI)
  from run_kept [of "(init dir, w)" ops] init_kept [of dir]
  show "reconnect_attempts (fst (run ops (init dir, w))) \<le> 3"
    by (simp add: well_kept_def)
next
  assume "well_kept s"
  from ensure_connection_kept [OF this, of w "fst (ensure_connection (s, w))"
      "fst (snd (ensure_connection (s, w)))" "snd (snd (ensure_connection (s, w)))"]
  show "reconnect_attempts (fst (snd (ensure_connection (s, w)))) \<le> 3"
    by (simp add: well_kept_def)
next
  assume "reconnect_attempts s = 3 \<and> \<not> process_alive s"
  then show "ensure_connection (s, w) = (Inr False, s, w)"
    using reconnect_exhausted [of s w] by (simp add: ensure_connection.simps)
next
  assume r: "ensure_connection (s, w) = (Inr True, s', w')"
  show "(s' = s \<and> process_alive s) \<or> reconnect_attempts s' = 0"
  proof (cases rule: ensure_connection_cases [of s w])
    case (alive w1)
    with r show ?thesis by simp
  next
    case (refused w1)
    with r show ?thesis by simp
  next
    case (gone w1)
    with r have "reconnect (s\<lparr>process_alive := False\<rparr>, w1) = (Inr True, s', w')" by simp
    then have "reconnect_attempts s' = 0"
      by (auto simp: reconnect.simps split: if_splits prod.splits sum.splits)
    then show ?thesis ..
  next
    case dead
    with r have "reconnect (s, w) = (Inr True, s', w')" by simp
    then have "reconnect_attempts s' = 0"
      by (auto simp: reconnect.simps split: if_splits prod.splits sum.splits)
    then show ?thesis ..
  qed
next
  assume "well_kept s \<and> reconnect_attempts s = 3"
  then have "handle_kept 3 (fst (s, w))" by (simp add: well_kept_def handle_kept_def)
  from run_stuck [OF this, of ops]
  show "reconnect_attempts (fst (run ops (s, w))) = 3" by (simp add: handle_kept_def)
qed

theorem reconnect_budget_witness:
  "reconnect_attempts (fresh\<lparr>reconnect_attempts := 3\<rparr>) = 3
   \<and> \<not> process_alive (fresh\<lparr>reconnect_attempts := 3\<rparr>)
   \<and> ensure_connection (fresh\<lparr>reconnect_attempts := 3\<rparr>, healthy)
       = (Inr False, fresh\<lparr>reconnect_attempts := 3\<rparr>, healthy)
   \<and> ensure_connection (fresh\<lparr>reconnect_attempts := 2\<rparr>, healthy)
       = (Inr True, live, idle\<lparr>now := 2500\<rparr>)
   \<and> ((live = fresh\<lparr>reconnect_attempts := 2\<rparr> \<and> process_alive (fresh\<lparr>reconnect_attempts := 2\<rparr>))
        \<or> reconnect_attempts live = 0)
   \<and> well_kept (fresh\<lparr>reconnect_attempts := 3\<rparr>)
   \<and> reconnect_attempts (fst (run [Start] (fresh\<lparr>reconnect_attempts := 3\<rparr>, healthy))) = 3
   \<and> reconnect_attempts (fst (run [Execute (ascii ''ls'') 1, Execute (ascii ''ls'') 1]
         (init (ascii ''/srv''), idle))) \<le> 3
   \<and> reconnect_attempts (fst (snd (ensure_connection (fresh\<lparr>reconnect_attempts := 3\<rparr>, healthy))))
       \<le> 3"
proof -
  have a: "reconnect_attempts (fresh\<lparr>reconnect_attempts := 3\<rparr>) = 3
      \<and> \<not> process_alive (fresh\<lparr>reconnect_attempts := 3\<rparr>)"
    by (simp add: eval_simps)
  have b: "ensure_connection (fresh\<lparr>reconnect_attempts := 2\<rparr>, healthy)
      = (Inr True, live, idle\<lparr>now := 2500\<rparr>)"
    by (simp add: eval_simps)
  have c: "well_kept (fresh\<lparr>reconnect_attempts := 3\<rparr>)
      \<and> reconnect_attempts (fresh\<lparr>reconnect_attempts := 3\<rparr>) = 3"
    by (simp add: eval_simps well_kept_def)
  note 1 = reconnect_budget [of "[]" "[]" healthy "fresh\<lparr>reconnect_attempts := 3\<rparr>" fresh healthy,
      THEN conjunct2, THEN conjunct2, THEN conjunct1, rule_format, OF a]
  note 2 = reconnect_budget [of "[]" "[]" healthy "fresh\<lparr>reconnect_attempts := 2\<rparr>" live
      "idle\<lparr>now := 2500\<rparr>", THEN conjunct2, THEN conjunct2, THEN conjunct2, THEN conjunct1,
      rule_format, OF b]
  note 3 = reconnect_budget [of "[Start]" "[]" healthy "fresh\<lparr>reconnect_attempts := 3\<rparr>" fresh
      healthy, THEN conjunct2, THEN conjunct2, THEN conjunct2, THEN conjunct2, rule_format, OF c]
  note 4 = reconnect_budget [of "[Execute (ascii ''ls'') 1, Execute (ascii ''ls'') 1]"
      "ascii ''/srv''" idle fresh fresh idle, THEN conjunct1]
  note 5 = reconnect_budget [of "[]" "[]" healthy "fresh\<lparr>reconnect_attempts := 3\<rparr>" fresh healthy,
      THEN conjunct2, THEN conjunct1, rule_format, OF c [THEN conjunct1]]
  from a b c 1 2 3 4 5 show ?thesis by (intro conjI) (erule conjunct1 conjunct2 | assumption)+
qed

section \<open>The master descriptor and the alive flag\<close>

text \<open>
  C9. The master descriptor can be set while the alive flag is false. Three reconnections
  fail and use up the budget; a public \<open>start\<close> then succeeds; the child dies; the next
  \<open>execute_command\<close> finds it gone, marks the session not alive and, the budget being
  used up, gives up without tearing the session down. The descriptor stays.
\<close>

theorem handle_outlives_alive_flag:
  "master_fd (fst (run [Execute (ascii ''ls'') 1, Execute (ascii ''ls'') 1, Start,
                        Execute (ascii ''ls'') 1] (fresh, three_failures_then_death))) = Some 3
   \<and> \<not> process_alive (fst (run [Execute (ascii ''ls'') 1, Execute (ascii ''ls'') 1, Start,
                        Execute (ascii ''ls'') 1] (fresh, three_failures_then_death)))"
  by (simp add: eval_simps)

text \<open>
  C9, as amended. In every state reached from a new session by any sequence of the public
  operations \<open>start\<close>, \<open>stop\<close> and \<open>execute_command\<close>, in any environment, a session
  whose alive flag is true has a master descriptor.
\<close>

theorem alive_has_master:
  assumes "process_alive (fst (run ops (init dir, w)))"
  shows "master_fd (fst (run ops (init dir, w))) \<noteq> None"
  using run_kept [of "(init dir, w)" ops] init_kept [of dir] assms
  by (simp add: well_kept_def)

theorem alive_has_master_witness:
  "process_alive (fst (run [Start] (init (ascii ''/srv''), healthy)))
   \<and> master_fd (fst (run [Start] (init (ascii ''/srv''), healthy))) \<noteq> None"
proof -
  have a: "process_alive (fst (run [Start] (init (ascii ''/srv''), healthy)))"
    by (simp add: eval_simps)
  from a alive_has_master [OF a] show ?thesis by blast
qed


section \<open>The output reader\<close>

text \<open>
  C3. With \<open>A\<close> there at once, \<open>B\<close> there after three seconds and a timeout of ten
  seconds, the reader does not return \<open>AB\<close>.
\<close>

theorem reader_misses_second_burst:
  "fst (read_terminal_output 10 (live, two_bursts)) \<noteq> Inr (ascii ''AB'')"
  by (simp add: eval_simps)

text \<open>
  C3, as amended. With \<open>A\<close> there at once, \<open>B\<close> there after three seconds and a timeout
  of ten seconds, the reader returns \<open>A\<close> alone: it polls every 0.1 s and stops at the
  first poll at which more than two seconds have passed since the last byte it read, at
  2.1 s, before \<open>B\<close> is there; \<open>B\<close> stays unread. Had \<open>B\<close> been there after 1.5 s,
  within the window, the reader would have returned \<open>AB\<close> at 3.6 s, again 2.1 s after
  the last byte.
\<close>

theorem reader_returns_first_burst:
  "read_terminal_output 10 (live, two_bursts)
     = (Inr (ascii ''A''), two_bursts\<lparr>now := 2100, reads := [(3000, ReadData (ascii ''B''))]\<rparr>)
   \<and> read_terminal_output 10
         (live, idle\<lparr>reads := [(0, ReadData (ascii ''A'')), (1500, ReadData (ascii ''B''))]\<rparr>)
     = (Inr (ascii ''AB''), idle\<lparr>now := 3600\<rparr>)"
  by (simp add: eval_simps)

text \<open>
  C7. A read that would block is not counted as a retry. With nothing ever to read and a
  timeout of six seconds the reader reads 61 times, each read would block, and it fails
  with the timeout at 6.1 s; a budget of 50 counted retries would have ended it with a
  \<open>RuntimeError\<close> before 5 s.
\<close>

theorem would_block_is_not_counted:
  "read_terminal_output 6 (live, idle) = (Inl (TimeoutError 6), idle\<lparr>now := 6100\<rparr>)"
  by (simp add: eval_simps)

text \<open>
  Would-block reads alone: the loop polls every 0.1 s, whatever the retry counter, and
  ends at the first poll after the timeout.
\<close>

lemma would_block_only_read:
  assumes "would_block_only w"
  shows "\<exists>w'. os_read n w = (ReadWouldBlock, w') \<and> would_block_only w' \<and> now w' = now w"
  using assms
  by (cases "reads w") (auto simp: would_block_only_def os_read_def)

lemma would_block_only_sleep: "would_block_only w \<Longrightarrow> would_block_only (sleep ms w)"
  by (simp add: would_block_only_def sleep_def)

lemma would_block_loop:
  assumes "would_block_only w" and "master_fd s = Some fd" and "0 \<le> timeout"
    and "now w + 100 * k = start_time + nat timeout * 1000 + 100"
  shows "fst (read_loop timeout start_time last_read_time retry_count buffer [] s w)
           = Inl (TimeoutError timeout)
         \<and> now (snd (read_loop timeout start_time last_read_time retry_count buffer [] s w))
           = start_time + nat timeout * 1000 + 100"
  using assms
proof (induction k arbitrary: w)
  case 0
  then have "timeout * 1000 < int (now w) - int start_time" by simp
  with 0 show ?case by (subst (1 2) read_loop.simps) simp
next
  case (Suc k)
  then have nt: "\<not> timeout * 1000 < int (now w) - int start_time" by simp
  from would_block_only_read [OF Suc.prems(1), of 4096]
  obtain w' where r: "os_read 4096 w = (ReadWouldBlock, w')" and b: "would_block_only w'"
    and n: "now w' = now w" by blast
  have step: "read_loop timeout start_time last_read_time retry_count buffer [] s w
      = read_loop timeout start_time last_read_time retry_count buffer [] s (sleep 100 w')"
    using nt r Suc.prems(2) by (subst read_loop.simps) (simp add: READ_TIMEOUT_def)
  have "now (sleep 100 w') + 100 * k = start_time + nat timeout * 1000 + 100"
    using Suc.prems(4) n by (simp add: sleep_def)
  from Suc.IH [OF would_block_only_sleep [OF b] Suc.prems(2) Suc.prems(3) this] step
  show ?case by simp
qed

lemma reader_would_block:
  assumes "truthy (master_fd s)" and "process_alive s" and "0 \<le> timeout"
    and "would_block_only w"
  shows "fst (read_terminal_output timeout (s, w)) = Inl (TimeoutError timeout)
         \<and> now (snd (read_terminal_output timeout (s, w))) = now w + nat timeout * 1000 + 100"
proof -
  from assms(1) obtain fd where m: "master_fd s = Some fd" by (cases "master_fd s") auto
  have "now w + 100 * (nat timeout * 10 + 1) = now w + nat timeout * 1000 + 100" by simp
  from would_block_loop [OF assms(4) m assms(3) this, where last_read_time = "now w"
      and retry_count = 0 and buffer = "[]"] assms(1,2)
  show ?thesis by (simp add: read_terminal_output.simps)
qed

text \<open>
  Reads that return no bytes, with nothing decoded so far: each one is counted, and the
  one that brings the counter to 50 ends the loop with the \<open>RuntimeError\<close>.
\<close>

lemma empty_reads_loop:
  assumes "reads w = replicate (Suc n) (t, ReadData []) @ rest" and "t \<le> now w"
    and "master_fd s = Some fd" and "retry_count + Suc n = 50"
    and "int (now w) + 100 * int n - int start_time \<le> timeout * 1000"
  shows "read_loop timeout start_time last_read_time retry_count buffer [] s w
           = (Inl (RuntimeError NoData), w\<lparr>now := now w + 100 * n, reads := rest\<rparr>)"
  using assms
proof (induction n arbitrary: w retry_count)
  case 0
  then have nt: "\<not> timeout * 1000 < int (now w) - int start_time" by simp
  from 0 have r: "os_read 4096 w = (ReadData [], w\<lparr>reads := rest\<rparr>)"
    by (simp add: os_read_def)
  from 0 nt r show ?case
    by (subst read_loop.simps) (simp add: MAX_READ_RETRIES_def)
next
  case (Suc n)
  then have nt: "\<not> timeout * 1000 < int (now w) - int start_time" by simp
  let ?w' = "w\<lparr>reads := replicate (Suc n) (t, ReadData []) @ rest\<rparr>"
  from Suc.prems have r: "os_read 4096 w = (ReadData [], ?w')"
    by (simp add: os_read_def)
  have step: "read_loop timeout start_time last_read_time retry_count buffer [] s w
      = read_loop timeout start_time last_read_time (retry_count + 1) buffer [] s (sleep 100 ?w')"
    using nt r Suc.prems(3,4) by (subst read_loop.simps) (simp add: MAX_READ_RETRIES_def READ_TIMEOUT_def)
  have a: "reads (sleep 100 ?w') = replicate (Suc n) (t, ReadData []) @ rest"
    by (simp add: sleep_def)
  have b: "t \<le> now (sleep 100 ?w')" using Suc.prems(2) by (simp add: sleep_def)
  have c: "(retry_count + 1) + Suc n = 50" using Suc.prems(4) by simp
  have d: "int (now (sleep 100 ?w')) + 100 * int n - int start_time \<le> timeout * 1000"
    using Suc.prems(5) by (simp add: sleep_def)
  from Suc.IH [OF a b Suc.prems(3) c d] step show ?case by (simp add: sleep_def)
qed

lemma reader_empty_reads:
  assumes "truthy (master_fd s)" and "process_alive s" and "5 \<le> timeout"
    and "reads w = replicate 50 (t, ReadData []) @ rest" and "t \<le> now w"
  shows "read_terminal_output timeout (s, w)
           = (Inl (RuntimeError NoData), w\<lparr>now := now w + 4900, reads := rest\<rparr>)"
proof -
  from assms(1) obtain fd where m: "master_fd s = Some fd" by (cases "master_fd s") auto
  have r: "reads w = replicate (Suc 49) (t, ReadData []) @ rest" using assms(4) by simp
  have c: "0 + Suc 49 = (50::nat)" by simp
  have d: "int (now w) + 100 * int 49 - int (now w) \<le> timeout * 1000" using assms(3) by simp
  from empty_reads_loop [OF r assms(5) m c d, where last_read_time = "now w" and buffer = "[]"]
    assms(1,2)
  show ?thesis by (simp add: read_terminal_output.simps)
qed

text \<open>
  Once a chunk has been decoded every way out of the loop returns: the timeout, the
  quiescence window, the retry budget and a failing read all leave with what was
  accumulated.
\<close>

lemma finish_prefix: "\<exists>more. finish buffer output_chunks = concat output_chunks @ more"
  by (simp add: finish_def)

lemma loop_returns_with_data:
  "output_chunks \<noteq> [] \<Longrightarrow> master_fd s \<noteq> None
     \<Longrightarrow> \<exists>more w'. read_loop timeout start_time last_read_time retry_count buffer output_chunks s w
                      = (Inr (concat output_chunks @ more), w')"
proof (induction timeout start_time last_read_time retry_count buffer output_chunks s w
    rule: read_loop.induct)
  case (1 timeout start_time last_read_time retry_count buffer output_chunks s w)
  from "1.prems"(2) obtain fd where m: "master_fd s = Some fd" by auto
  obtain r w' where rd: "os_read 4096 w = (r, w')" by (cases "os_read 4096 w") auto
  note fp = finish_prefix [of buffer output_chunks]
  show ?case
  proof (cases "timeout * 1000 < int (now w) - int start_time
                 \<or> 2000 < int (now w) - int last_read_time")
    case True
    with "1.prems"(1) fp show ?thesis by (subst read_loop.simps) auto
  next
    case False
    then have nt: "\<not> timeout * 1000 < int (now w) - int start_time"
      and nq: "\<not> (2000 < int (now w) - int last_read_time \<and> output_chunks \<noteq> [])"
      and nw: "\<not> 2000 < int (now w) - int last_read_time" by auto
    show ?thesis
    proof (cases r)
      case ReadFail
      with nt nw m rd fp show ?thesis by (subst read_loop.simps) auto
    next
      case ReadWouldBlock
      with nt nw m rd have step:
        "read_loop timeout start_time last_read_time retry_count buffer output_chunks s w
          = read_loop timeout start_time last_read_time retry_count buffer output_chunks s
              (sleep READ_TIMEOUT w')"
        by (subst read_loop.simps) simp
      from "1.IH"(4) [OF nt nq m rd [symmetric] ReadWouldBlock "1.prems"] step
      show ?thesis by simp
    next
      case (ReadData chunk)
      show ?thesis
      proof (cases "chunk = []")
        case True
        show ?thesis
        proof (cases "MAX_READ_RETRIES \<le> retry_count + 1")
          case True
          with \<open>chunk = []\<close> ReadData nt nw m rd fp "1.prems"(1) show ?thesis
            by (subst read_loop.simps) auto
        next
          case False
          with \<open>chunk = []\<close> ReadData nt nw m rd have step:
            "read_loop timeout start_time last_read_time retry_count buffer output_chunks s w
              = read_loop timeout start_time last_read_time (retry_count + 1) buffer
                  output_chunks s (sleep READ_TIMEOUT w')"
            by (subst read_loop.simps) simp
          from "1.IH"(3) [OF nt nq m rd [symmetric] ReadData _ False "1.prems"] \<open>chunk = []\<close> step
          show ?thesis by simp
        qed
      next
        case False
        show ?thesis
        proof (cases "utf8_decode (buffer @ chunk)")
          case None
          with False ReadData nt nw m rd have step:
            "read_loop timeout start_time last_read_time retry_count buffer output_chunks s w
              = read_loop timeout start_time last_read_time retry_count (buffer @ chunk)
                  output_chunks s w'"
            by (subst read_loop.simps) simp
          from "1.IH"(1) [OF nt nq m rd [symmetric] ReadData False None "1.prems"] step
          show ?thesis by simp
        next
          case (Some decoded)
          with False ReadData nt nw m rd have step:
            "read_loop timeout start_time last_read_time retry_count buffer output_chunks s w
              = read_loop timeout start_time (now w) 0 [] (output_chunks @ [decoded]) s w'"
            by (subst read_loop.simps) simp
          from "1.IH"(2) [OF nt nq m rd [symmetric] ReadData False Some _ "1.prems"(2)] step
          show ?thesis by auto
        qed
      qed
    qed
  qed
qed


text \<open>
  C7, as amended. For the reader called on a started session. A read that would block
  (\<open>BlockingIOError\<close>) sleeps 0.1 s and is not counted as a retry: when every read would
  block, the reader fails with the timeout failure at the first poll after the timeout,
  \<open>10 * timeout + 1\<close> reads after the call, however many that is. A read that returns
  no bytes is counted: fifty of them in a row, with nothing decoded before them and a
  timeout of five seconds or more, make the reader fail with a \<open>RuntimeError\<close> 4.9 s
  after the call. Once a chunk has been decoded the reader does not fail any more: when
  its first read brings data that decodes, and from any point of the loop at which the
  list of decoded chunks is not empty, it returns a text that begins with what was
  decoded.
\<close>

theorem reader_counts_empty_reads_only:
  assumes "truthy (master_fd s)" and "process_alive s"
  shows
    "(0 \<le> timeout \<and> would_block_only w
        \<longrightarrow> fst (read_terminal_output timeout (s, w)) = Inl (TimeoutError timeout)
            \<and> now (snd (read_terminal_output timeout (s, w)))
                = now w + nat timeout * 1000 + 100)
     \<and> (5 \<le> timeout \<and> reads w = replicate 50 (t, ReadData []) @ rest \<and> t \<le> now w
        \<longrightarrow> read_terminal_output timeout (s, w)
            = (Inl (RuntimeError NoData), w\<lparr>now := now w + 4900, reads := rest\<rparr>))
     \<and> (0 \<le> timeout \<and> os_read 4096 w = (ReadData chunk, w1) \<and> chunk \<noteq> []
          \<and> utf8_decode chunk = Some decoded
        \<longrightarrow> (\<exists>more w'. read_terminal_output timeout (s, w) = (Inr (decoded @ more), w')))
     \<and> (output_chunks \<noteq> []
        \<longrightarrow> (\<exists>more w'. read_loop timeout start_time last_read_time retry_count buffer
                          output_chunks s w
                        = (Inr (concat output_chunks @ more), w')))"
proof -
  from assms(1) obtain fd where m: "master_fd s = Some fd" by (cases "master_fd s") auto
  have a: "0 \<le> timeout \<and> would_block_only w
        \<longrightarrow> fst (read_terminal_output timeout (s, w)) = Inl (TimeoutError timeout)
            \<and> now (snd (read_terminal_output timeout (s, w)))
                = now w + nat timeout * 1000 + 100"
    using reader_would_block [OF assms, of timeout w] by blast
  have b: "5 \<le> timeout \<and> reads w = replicate 50 (t, ReadData []) @ rest \<and> t \<le> now w
        \<longrightarrow> read_terminal_output timeout (s, w)
            = (Inl (RuntimeError NoData), w\<lparr>now := now w + 4900, reads := rest\<rparr>)"
    using reader_empty_reads [OF assms, of timeout w t rest] by blast
  have c: "0 \<le> timeout \<and> os_read 4096 w = (ReadData chunk, w1) \<and> chunk \<noteq> []
          \<and> utf8_decode chunk = Some decoded
        \<longrightarrow> (\<exists>more w'. read_terminal_output timeout (s, w) = (Inr (decoded @ more), w'))"
  proof
    assume h: "0 \<le> timeout \<and> os_read 4096 w = (ReadData chunk, w1) \<and> chunk \<noteq> []
          \<and> utf8_decode chunk = Some decoded"
    then have "read_loop timeout (now w) (now w) 0 [] [] s w
        = read_loop timeout (now w) (now w) 0 [] [decoded] s w1"
      using m by (subst read_loop.simps) simp
    with assms have e: "read_terminal_output timeout (s, w)
        = read_loop timeout (now w) (now w) 0 [] [decoded] s w1"
      by (simp add: read_terminal_output.simps)
    from m loop_returns_with_data [of "[decoded]" s timeout "now w" "now w" 0 "[]" w1]
    obtain more w' where "read_loop timeout (now w) (now w) 0 [] [decoded] s w1
        = (Inr (concat [decoded] @ more), w')"
      by auto
    with e show "\<exists>more w'. read_terminal_output timeout (s, w) = (Inr (decoded @ more), w')"
      by simp
  qed
  have d: "output_chunks \<noteq> []
        \<longrightarrow> (\<exists>more w'. read_loop timeout start_time last_read_time retry_count buffer
                          output_chunks s w
                        = (Inr (concat output_chunks @ more), w'))"
    using m loop_returns_with_data [of output_chunks s] by simp
  from a b c d show ?thesis by (intro conjI)
qed

theorem reader_counts_empty_reads_only_witness:
  "truthy (master_fd live) \<and> process_alive live
   \<and> would_block_only idle
   \<and> fst (read_terminal_output 100 (live, idle)) = Inl (TimeoutError 100)
   \<and> now (snd (read_terminal_output 100 (live, idle))) = 100100
   \<and> reads fifty_empty_reads = replicate 50 (0, ReadData []) @ []
   \<and> read_terminal_output 10 (live, fifty_empty_reads)
       = (Inl (RuntimeError NoData), fifty_empty_reads\<lparr>now := 4900, reads := []\<rparr>)
   \<and> os_read 4096 two_bursts
       = (ReadData (ascii ''A''), idle\<lparr>reads := [(3000, ReadData (ascii ''B''))]\<rparr>)
   \<and> utf8_decode (ascii ''A'') = Some (ascii ''A'')
   \<and> (\<exists>more w'. read_terminal_output 10 (live, two_bursts) = (Inr (ascii ''A'' @ more), w'))
   \<and> read_terminal_output 10 (live, two_bursts)
       = read_loop 10 0 0 0 [] [ascii ''A''] live
           (idle\<lparr>reads := [(3000, ReadData (ascii ''B''))]\<rparr>)
   \<and> (\<exists>more w'. read_loop 10 0 0 0 [] [ascii ''A''] live
                    (idle\<lparr>reads := [(3000, ReadData (ascii ''B''))]\<rparr>)
                  = (Inr (concat [ascii ''A''] @ more), w'))"
proof -
  have m: "truthy (master_fd live)" and p: "process_alive live"
    by (simp_all add: live_def)
  have wb: "would_block_only idle"
    by (simp add: would_block_only_def idle_def)
  have h1: "(0::int) \<le> 100 \<and> would_block_only idle"
    using wb by simp
  have rs: "reads fifty_empty_reads = replicate 50 (0, ReadData []) @ []"
    by (simp add: fifty_empty_reads_def idle_def)
  have h2: "(5::int) \<le> 10 \<and> reads fifty_empty_reads = replicate 50 (0, ReadData []) @ []
      \<and> 0 \<le> now fifty_empty_reads"
    using rs by simp
  have rd: "os_read 4096 two_bursts
       = (ReadData (ascii ''A''), idle\<lparr>reads := [(3000, ReadData (ascii ''B''))]\<rparr>)"
    by (simp add: os_read_def two_bursts_def idle_def ascii_def)
  have dc: "utf8_decode (ascii ''A'') = Some (ascii ''A'')"
    by (simp add: eval_simps)
  have h3: "(0::int) \<le> 10 \<and> os_read 4096 two_bursts
       = (ReadData (ascii ''A''), idle\<lparr>reads := [(3000, ReadData (ascii ''B''))]\<rparr>)
      \<and> ascii ''A'' \<noteq> [] \<and> utf8_decode (ascii ''A'') = Some (ascii ''A'')"
    using rd dc by (simp add: ascii_def)
  have h4: "[ascii ''A''] \<noteq> []" by simp
  have st: "read_terminal_output 10 (live, two_bursts)
       = read_loop 10 0 0 0 [] [ascii ''A''] live
           (idle\<lparr>reads := [(3000, ReadData (ascii ''B''))]\<rparr>)"
    by (simp add: eval_simps)
  note 1 = reader_counts_empty_reads_only [OF m p, THEN conjunct1, rule_format, OF h1]
  note 2 = reader_counts_empty_reads_only [OF m p, THEN conjunct2, THEN conjunct1, rule_format,
      OF h2]
  note 3 = reader_counts_empty_reads_only [OF m p, THEN conjunct2, THEN conjunct2,
      THEN conjunct1, rule_format, OF h3]
  note 4 = reader_counts_empty_reads_only [OF m p, THEN conjunct2, THEN conjunct2,
      THEN conjunct2, rule_format, OF h4, of 10 0 0 0 "[]"
      "idle\<lparr>reads := [(3000, ReadData (ascii ''B''))]\<rparr>"]
  from 1 have a1: "fst (read_terminal_output 100 (live, idle)) = Inl (TimeoutError 100)"
    and b1: "now (snd (read_terminal_output 100 (live, idle))) = 100100"
    by (simp_all add: idle_def)
  from 2 have a2: "read_terminal_output 10 (live, fifty_empty_reads)
       = (Inl (RuntimeError NoData), fifty_empty_reads\<lparr>now := 4900, reads := []\<rparr>)"
    by (simp add: fifty_empty_reads_def idle_def)
  from m p wb a1 b1 rs a2 rd dc 3 st 4 show ?thesis by (intro conjI)
qed

text \<open>
  Fifty reads in a row that return no bytes, with nothing decoded before them, end the
  reader with the \<open>RuntimeError\<close> at 4.9 s, when the timeout allows that long.
\<close>

lemma replicate_numeral: "replicate (numeral v) x = x # replicate (numeral v - 1) x"
  by (simp add: numeral_eq_Suc)

lemma fifty_empty_reads_raise:
  "read_terminal_output 10 (live, fifty_empty_reads)
     = (Inl (RuntimeError NoData), idle\<lparr>now := 4900\<rparr>)"
  by (simp add: eval_simps replicate_numeral)

text \<open>
  Data and then fifty reads that return no bytes: the reader returns the data 2.1 s after
  it read them, when the quiescence window is over, and 29 of the fifty reads are left.
\<close>

lemma data_then_empty_reads:
  "read_terminal_output 10
     (live, idle\<lparr>reads := (0, ReadData (ascii ''A'')) # replicate 50 (0, ReadData [])\<rparr>)
     = (Inr (ascii ''A''), idle\<lparr>now := 2100, reads := replicate 29 (0, ReadData [])\<rparr>)"
  by (simp add: eval_simps replicate_numeral)

section \<open>The retry of the command executor\<close>

text \<open>
  C2. A timeout of the read does not leave \<open>execute_command\<close> at once. The shell's
  answer is there after 4.1 s and the timeout is 1 s: the read of the first pass raises
  \<open>TimeoutError\<close>, which is an \<open>OSError\<close> and is caught, and the second pass returns
  the answer.
\<close>

theorem timeout_is_retried:
  "fst (attempt (ascii ''ls'') 1 (live, late_answer)) = Inl (TimeoutError 1)
   \<and> fst (execute_command (ascii ''ls'') 1 (live, late_answer))
       = Inr (ascii ''/srv'', ascii ''hello'')"
  by (simp add: eval_simps)

text \<open>
  C2, as amended. For every command and timeout, if in the first pass the connection is
  there, the command is written and the read of its output raises a timeout failure, then
  \<open>execute_command\<close> catches it, sleeps one second and runs the second pass from the
  state the first one left; what the second pass returns or raises, a timeout failure
  included, is what the caller gets.
\<close>

theorem timeout_retried_once:
  assumes "ensure_connection (s, w) = (Inr True, s1, w1)"
    and "clear_initial_output (s1, w1) = (Inr (), s1, w2)"
    and "master_fd s1 \<noteq> None"
    and "send_command_to_terminal command (s1, w2) = (Inr (), s1, w3)"
    and "read_terminal_output timeout (s1, w3) = (Inl (TimeoutError t), w4)"
  shows "attempt command timeout (s, w) = (Inl (TimeoutError t), s1, w4)
     \<and> execute_command command timeout (s, w) = attempt command timeout (s1, sleep 1000 w4)"
proof -
  from assms have "attempt command timeout (s, w) = (Inl (TimeoutError t), s1, w4)"
    by (simp add: attempt.simps)
  then show ?thesis by (simp add: execute_command.simps)
qed

theorem timeout_retried_once_witness:
  "ensure_connection (live, late_answer) = (Inr True, live, late_answer)
   \<and> clear_initial_output (live, late_answer) = (Inr (), live, late_answer\<lparr>now := 1000\<rparr>)
   \<and> master_fd live \<noteq> None
   \<and> send_command_to_terminal (ascii ''ls'') (live, late_answer\<lparr>now := 1000\<rparr>)
       = (Inr (), live, late_answer\<lparr>now := 1000\<rparr>)
   \<and> read_terminal_output 1 (live, late_answer\<lparr>now := 1000\<rparr>)
       = (Inl (TimeoutError 1), late_answer\<lparr>now := 2100\<rparr>)
   \<and> attempt (ascii ''ls'') 1 (live, late_answer)
       = (Inl (TimeoutError 1), live, late_answer\<lparr>now := 2100\<rparr>)
   \<and> execute_command (ascii ''ls'') 1 (live, late_answer)
       = attempt (ascii ''ls'') 1 (live, sleep 1000 (late_answer\<lparr>now := 2100\<rparr>))"
proof -
  have a: "ensure_connection (live, late_answer) = (Inr True, live, late_answer)"
    by (simp add: eval_simps)
  have b: "clear_initial_output (live, late_answer) = (Inr (), live, late_answer\<lparr>now := 1000\<rparr>)"
    by (simp add: eval_simps)
  have c: "master_fd live \<noteq> None"
    by (simp add: eval_simps)
  have d: "send_command_to_terminal (ascii ''ls'') (live, late_answer\<lparr>now := 1000\<rparr>)
       = (Inr (), live, late_answer\<lparr>now := 1000\<rparr>)"
    by (simp add: eval_simps)
  have e: "read_terminal_output 1 (live, late_answer\<lparr>now := 1000\<rparr>)
       = (Inl (TimeoutError 1), late_answer\<lparr>now := 2100\<rparr>)"
    by (simp add: eval_simps)
  from a b c d e timeout_retried_once [OF a b c d e] show ?thesis by (intro conjI) (erule conjunct1 conjunct2 | assumption)+
qed

text \<open>
  C8. With the reconnection budget used up the connection failure does not reach the
  caller at once. Two calls of \<open>execute_command\<close> where no pseudo-terminal can be had
  leave the counter at 3, five seconds after the first call. In the third call
  \<open>_ensure_connection\<close> reports failure without a pause and the pass raises the
  connection failure at 5 s; \<open>execute_command\<close> catches it, sleeps a second and runs
  its second pass, and the caller has the failure at 6 s.
\<close>

theorem exhausted_budget_is_retried:
  "run [Execute (ascii ''ls'') 1, Execute (ascii ''ls'') 1] (fresh, idle)
     = (fresh\<lparr>reconnect_attempts := 3\<rparr>, idle\<lparr>now := 5000\<rparr>)
   \<and> ensure_connection (fresh\<lparr>reconnect_attempts := 3\<rparr>, idle\<lparr>now := 5000\<rparr>)
     = (Inr False, fresh\<lparr>reconnect_attempts := 3\<rparr>, idle\<lparr>now := 5000\<rparr>)
   \<and> attempt (ascii ''ls'') 1 (fresh\<lparr>reconnect_attempts := 3\<rparr>, idle\<lparr>now := 5000\<rparr>)
     = (Inl (RuntimeError ConnectFailed), fresh\<lparr>reconnect_attempts := 3\<rparr>,
        idle\<lparr>now := 5000\<rparr>)
   \<and> execute_command (ascii ''ls'') 1 (fresh\<lparr>reconnect_attempts := 3\<rparr>, idle\<lparr>now := 5000\<rparr>)
     = (Inl (RuntimeError ConnectFailed), fresh\<lparr>reconnect_attempts := 3\<rparr>,
        idle\<lparr>now := 6000\<rparr>)"
  by (simp add: eval_simps)

text \<open>
  With the counter at its maximum, a call of \<open>_ensure_connection\<close> that reports failure
  leaves a session that the next call finds dead, with the counter unchanged.
\<close>

lemma exhausted_ensure:
  assumes "MAX_RECONNECT_ATTEMPTS \<le> reconnect_attempts s"
    and "ensure_connection (s, w) = (Inr False, s1, w1)"
  shows "\<not> (process_alive s1 \<and> truthy (shell_pid s1)) \<and> reconnect_attempts s1 = reconnect_attempts s"
proof (rule ensure_connection_cases [of s w])
  fix w2 assume "ensure_connection (s, w) = (Inr True, s, w2)"
  with assms show ?thesis by simp
next
  fix w2 assume "ensure_connection (s, w) = (Inl PermissionError, s, w2)"
  with assms show ?thesis by simp
next
  fix w2 assume g: "ensure_connection (s, w) = reconnect (s\<lparr>process_alive := False\<rparr>, w2)"
  from assms(1) have "reconnect (s\<lparr>process_alive := False\<rparr>, w2)
      = (Inr False, s\<lparr>process_alive := False\<rparr>, w2)"
    by (simp add: reconnect.simps)
  with g assms(2) have "s1 = s\<lparr>process_alive := False\<rparr>" by simp
  then show ?thesis by simp
next
  assume "\<not> (process_alive s \<and> truthy (shell_pid s))"
    and "ensure_connection (s, w) = reconnect (s, w)"
  with assms show ?thesis by (auto simp add: reconnect.simps)
qed

lemma budget_used_up:
  assumes b: "MAX_RECONNECT_ATTEMPTS \<le> reconnect_attempts s"
    and e: "ensure_connection (s, w) = (Inr False, s1, w1)"
  shows "attempt command timeout (s, w) = (Inl (RuntimeError ConnectFailed), s1, w1)
     \<and> ensure_connection (s1, sleep 1000 w1) = (Inr False, s1, sleep 1000 w1)
     \<and> execute_command command timeout (s, w)
         = (Inl (RuntimeError ConnectFailed), s1, sleep 1000 w1)"
proof -
  from e have a: "attempt command timeout (s, w) = (Inl (RuntimeError ConnectFailed), s1, w1)"
    by (simp add: attempt.simps)
  from exhausted_ensure [OF b e] b
  have d: "\<not> (process_alive s1 \<and> truthy (shell_pid s1))"
    and b1: "MAX_RECONNECT_ATTEMPTS \<le> reconnect_attempts s1" by simp_all
  from d have "ensure_connection (s1, sleep 1000 w1) = reconnect (s1, sleep 1000 w1)"
    by (auto simp: ensure_connection.simps)
  with b1 have e2: "ensure_connection (s1, sleep 1000 w1) = (Inr False, s1, sleep 1000 w1)"
    by (simp add: reconnect.simps)
  then have "attempt command timeout (s1, sleep 1000 w1)
      = (Inl (RuntimeError ConnectFailed), s1, sleep 1000 w1)"
    by (simp add: attempt.simps)
  with a e2 show ?thesis by (simp add: execute_command.simps)
qed

text \<open>
  C8, as amended. With the counter at its maximum when \<open>execute_command\<close> is called,
  \<open>_ensure_connection\<close> reports failure when the session is not alive or has no child
  recorded, and when it is alive and the probe finds its child gone. Whenever it reports failure, the pass raises
  the connection failure; \<open>execute_command\<close> catches it, sleeps one second and runs the
  second pass, whose \<open>_ensure_connection\<close> reports failure again and changes nothing;
  the connection failure of the second pass is what the caller gets, one second after
  the first, with the session as the first \<open>_ensure_connection\<close> left it.
\<close>

theorem exhausted_budget_fails_after_retry:
  assumes "MAX_RECONNECT_ATTEMPTS \<le> reconnect_attempts s"
  shows
    "(\<not> (process_alive s \<and> truthy (shell_pid s))
        \<longrightarrow> ensure_connection (s, w) = (Inr False, s, w))
     \<and> (process_alive s \<and> truthy (shell_pid s) \<and> os_kill w = (KillNoProcess, w0)
        \<longrightarrow> ensure_connection (s, w) = (Inr False, s\<lparr>process_alive := False\<rparr>, w0))
     \<and> (ensure_connection (s, w) = (Inr False, s1, w1)
        \<longrightarrow> attempt command timeout (s, w) = (Inl (RuntimeError ConnectFailed), s1, w1)
            \<and> ensure_connection (s1, sleep 1000 w1) = (Inr False, s1, sleep 1000 w1)
            \<and> execute_command command timeout (s, w)
                = (Inl (RuntimeError ConnectFailed), s1, sleep 1000 w1))"
proof -
  have a: "\<not> (process_alive s \<and> truthy (shell_pid s))
        \<longrightarrow> ensure_connection (s, w) = (Inr False, s, w)"
    using assms by (auto simp: ensure_connection.simps reconnect.simps)
  have b: "process_alive s \<and> truthy (shell_pid s) \<and> os_kill w = (KillNoProcess, w0)
        \<longrightarrow> ensure_connection (s, w) = (Inr False, s\<lparr>process_alive := False\<rparr>, w0)"
    using assms by (simp add: ensure_connection.simps reconnect.simps)
  have c: "ensure_connection (s, w) = (Inr False, s1, w1)
        \<longrightarrow> attempt command timeout (s, w) = (Inl (RuntimeError ConnectFailed), s1, w1)
            \<and> ensure_connection (s1, sleep 1000 w1) = (Inr False, s1, sleep 1000 w1)
            \<and> execute_command command timeout (s, w)
                = (Inl (RuntimeError ConnectFailed), s1, sleep 1000 w1)"
    using budget_used_up [OF assms] by blast
  from a b c show ?thesis by (intro conjI)
qed

theorem exhausted_budget_fails_after_retry_witness:
  "MAX_RECONNECT_ATTEMPTS \<le> reconnect_attempts (fresh\<lparr>reconnect_attempts := 3\<rparr>)
   \<and> \<not> (process_alive (fresh\<lparr>reconnect_attempts := 3\<rparr>)
          \<and> truthy (shell_pid (fresh\<lparr>reconnect_attempts := 3\<rparr>)))
   \<and> ensure_connection (fresh\<lparr>reconnect_attempts := 3\<rparr>, idle)
       = (Inr False, fresh\<lparr>reconnect_attempts := 3\<rparr>, idle)
   \<and> MAX_RECONNECT_ATTEMPTS \<le> reconnect_attempts (live\<lparr>reconnect_attempts := 3\<rparr>)
   \<and> process_alive (live\<lparr>reconnect_attempts := 3\<rparr>)
   \<and> truthy (shell_pid (live\<lparr>reconnect_attempts := 3\<rparr>))
   \<and> os_kill (idle\<lparr>now := 4500, kills := [KillNoProcess]\<rparr>) = (KillNoProcess, idle\<lparr>now := 4500\<rparr>)
   \<and> ensure_connection (live\<lparr>reconnect_attempts := 3\<rparr>, idle\<lparr>now := 4500, kills := [KillNoProcess]\<rparr>)
       = (Inr False, live\<lparr>reconnect_attempts := 3, process_alive := False\<rparr>, idle\<lparr>now := 4500\<rparr>)
   \<and> attempt (ascii ''ls'') 1
         (live\<lparr>reconnect_attempts := 3\<rparr>, idle\<lparr>now := 4500, kills := [KillNoProcess]\<rparr>)
       = (Inl (RuntimeError ConnectFailed),
          live\<lparr>reconnect_attempts := 3, process_alive := False\<rparr>, idle\<lparr>now := 4500\<rparr>)
   \<and> ensure_connection
         (live\<lparr>reconnect_attempts := 3, process_alive := False\<rparr>, sleep 1000 (idle\<lparr>now := 4500\<rparr>))
       = (Inr False, live\<lparr>reconnect_attempts := 3, process_alive := False\<rparr>,
          sleep 1000 (idle\<lparr>now := 4500\<rparr>))
   \<and> execute_command (ascii ''ls'') 1
         (live\<lparr>reconnect_attempts := 3\<rparr>, idle\<lparr>now := 4500, kills := [KillNoProcess]\<rparr>)
       = (Inl (RuntimeError ConnectFailed),
          live\<lparr>reconnect_attempts := 3, process_alive := False\<rparr>,
          sleep 1000 (idle\<lparr>now := 4500\<rparr>))"
proof -
  have f: "MAX_RECONNECT_ATTEMPTS \<le> reconnect_attempts (fresh\<lparr>reconnect_attempts := 3\<rparr>)"
    by (simp add: MAX_RECONNECT_ATTEMPTS_def)
  have fd: "\<not> (process_alive (fresh\<lparr>reconnect_attempts := 3\<rparr>)
          \<and> truthy (shell_pid (fresh\<lparr>reconnect_attempts := 3\<rparr>)))"
    by (simp add: fresh_def init_def)
  have l: "MAX_RECONNECT_ATTEMPTS \<le> reconnect_attempts (live\<lparr>reconnect_attempts := 3\<rparr>)"
    by (simp add: MAX_RECONNECT_ATTEMPTS_def)
  have la: "process_alive (live\<lparr>reconnect_attempts := 3\<rparr>)"
    and lp: "truthy (shell_pid (live\<lparr>reconnect_attempts := 3\<rparr>))"
    by (simp_all add: live_def)
  have k: "os_kill (idle\<lparr>now := 4500, kills := [KillNoProcess]\<rparr>)
      = (KillNoProcess, idle\<lparr>now := 4500\<rparr>)"
    by (simp add: os_kill_def idle_def)
  have lk: "process_alive (live\<lparr>reconnect_attempts := 3\<rparr>)
      \<and> truthy (shell_pid (live\<lparr>reconnect_attempts := 3\<rparr>))
      \<and> os_kill (idle\<lparr>now := 4500, kills := [KillNoProcess]\<rparr>)
          = (KillNoProcess, idle\<lparr>now := 4500\<rparr>)"
    using la lp k by simp
  note 1 = exhausted_budget_fails_after_retry [OF f, THEN conjunct1, rule_format, OF fd, of idle]
  note 2 = exhausted_budget_fails_after_retry [OF l, THEN conjunct2, THEN conjunct1,
      rule_format, OF lk]
  from 2 have e: "ensure_connection
        (live\<lparr>reconnect_attempts := 3\<rparr>, idle\<lparr>now := 4500, kills := [KillNoProcess]\<rparr>)
       = (Inr False, live\<lparr>reconnect_attempts := 3, process_alive := False\<rparr>,
          idle\<lparr>now := 4500\<rparr>)"
    by simp
  note 3 = exhausted_budget_fails_after_retry [OF l, THEN conjunct2, THEN conjunct2,
      rule_format, OF e, of "ascii ''ls''" 1]
  note a3 = 3 [THEN conjunct1]
  note b3 = 3 [THEN conjunct2, THEN conjunct1]
  note c3 = 3 [THEN conjunct2, THEN conjunct2]
  from f fd 1 l la lp k e a3 b3 c3 show ?thesis by (intro conjI)
qed

text \<open>
  Below the budget the second pass can reconnect: the first \<open>pty.openpty\<close> fails, the
  second works, and the command runs.
\<close>

lemma connection_failure_below_budget:
  "fst (ensure_connection (fresh, second_start_works)) = Inr False
   \<and> fst (execute_command (ascii ''ls'') 1 (fresh, second_start_works))
       = Inr (ascii ''/srv'', ascii ''hello'')"
  by (simp add: eval_simps)

section \<open>The working-directory probe\<close>

text \<open>
  C6. A failure of the write of the \<open>pwd\<close> probe is not absorbed: the write stands
  before the \<open>try\<close> block of \<open>_get_current_directory\<close>. Here the command is written and
  its output read in both passes, the write of the probe fails in both, and
  \<open>execute_command\<close> raises the \<open>OSError\<close> instead of returning the output with the
  configured directory.
\<close>

theorem probe_write_failure_fails_command:
  "fst (read_terminal_output 1 (live, probe_write_fails\<lparr>now := 1000\<rparr>)) = Inr (ascii ''a.txt\<newline>'')
   \<and> fst (get_current_directory (live, idle\<lparr>writes := [WriteFail]\<rparr>)) = Inl OSError
   \<and> fst (execute_command (ascii ''ls'') 1 (live, probe_write_fails)) = Inl OSError"
  by (simp add: eval_simps)

text \<open>
  When the write of the probe succeeds, \<open>_get_current_directory\<close> never raises: a
  failure of the read is absorbed and the configured directory returned.
\<close>

lemma probe_never_raises_after_write:
  assumes "fst (os_write (ascii ''pwd\<newline>'') w) \<noteq> None"
  shows "\<exists>dir w'. get_current_directory (s, w) = (Inr dir, s, w')"
  using assms
  by (auto simp: get_current_directory.simps split: prod.splits option.splits sum.splits)

lemma probe_read_failure_falls_back:
  assumes "master_fd s \<noteq> None"
    and "os_write (ascii ''pwd\<newline>'') w = (Some written, w1)"
    and "read_terminal_output 5 (s, w1) = (Inl e, w2)"
  shows "get_current_directory (s, w) = (Inr (working_dir s), s, w2)"
  using assms by (auto simp: get_current_directory.simps)

text \<open>
  A shell that never answers, with a timeout of two seconds: both passes time out, and
  the timeout failure reaches the caller 7.2 s after the call.
\<close>

lemma silent_shell_times_out_twice:
  "execute_command (ascii ''ls'') 2 (live, idle) = (Inl (TimeoutError 2), live, idle\<lparr>now := 7200\<rparr>)"
  by (simp add: eval_simps)


section \<open>The empty command\<close>

text \<open>
  A pass is its read followed by the directory probe and the cleaning; a pass that
  returns hands back the cleaned output of its own read; and what \<open>execute_command\<close>
  returns is what its first pass returns, or its second pass after a first that raised.
\<close>

lemma attempt_after_read:
  "attempt command timeout (s, w) =
     (case pass_read command timeout (s, w) of
        (Inl e, s3, w4) \<Rightarrow> (Inl e, s3, w4)
      | (Inr output, s3, w4) \<Rightarrow>
          (case get_current_directory (s3, w4) of
             (Inl e, s5, w5) \<Rightarrow> (Inl e, s5, w5)
           | (Inr cwd, s5, w5) \<Rightarrow> (Inr (cwd, clean_output command output), s5, w5)))"
  unfolding attempt.simps pass_read.simps
  by (auto split: prod.splits sum.splits bool.splits simp del: send_command_to_terminal.simps clear_initial_output.simps retrieve_command_output.simps)

lemma pass_returns:
  assumes "attempt command timeout (s, w) = (Inr (cwd, cleaned), s', w')"
  shows "\<exists>output w4. pass_read command timeout (s, w) = (Inr output, s', w4)
           \<and> get_current_directory (s', w4) = (Inr cwd, s', w')
           \<and> cleaned = clean_output command output"
proof -
  obtain r s3 w4 where p: "pass_read command timeout (s, w) = (r, s3, w4)"
    by (cases "pass_read command timeout (s, w)") auto
  show ?thesis
  proof (cases r)
    case (Inl e)
    with p assms show ?thesis by (simp add: attempt_after_read)
  next
    case (Inr out)
    obtain r5 w5 where g: "get_current_directory (s3, w4) = (r5, s3, w5)"
      using get_current_directory_result by blast
    show ?thesis
    proof (cases r5)
      case (Inl e)
      with p Inr g assms show ?thesis by (simp add: attempt_after_read)
    next
      case got: (Inr dir)
      with p Inr g assms have "s' = s3" "w' = w5" "cwd = dir" "cleaned = clean_output command out"
        by (simp_all add: attempt_after_read)
      with p Inr g got show ?thesis by simp
    qed
  qed
qed

lemma execute_command_pass:
  assumes "execute_command command timeout (s, w) = (Inr r, s', w')"
  shows "attempt command timeout (s, w) = (Inr r, s', w')
         \<or> (\<exists>e s1 w1. attempt command timeout (s, w) = (Inl e, s1, w1)
               \<and> attempt command timeout (s1, sleep 1000 w1) = (Inr r, s', w'))"
proof -
  obtain r1 s1 w1 where a: "attempt command timeout (s, w) = (r1, s1, w1)"
    by (cases "attempt command timeout (s, w)") auto
  show ?thesis
  proof (cases r1)
    case (Inr v)
    with a assms show ?thesis by (simp add: execute_command.simps)
  next
    case (Inl e)
    with a assms have "attempt command timeout (s1, sleep 1000 w1) = (Inr r, s', w')"
      by (simp add: execute_command.simps split: if_splits)
    with a Inl show ?thesis by simp
  qed
qed

lemma clean_output_empty:
  "clean_output [] output = join [10] (filter_lines (drop 1 (splitlines (ansi_sub output))))"
proof (cases "splitlines (ansi_sub output)")
  case Nil
  then show ?thesis by (simp add: clean_output_def drop_command_line_def filter_lines_def)
next
  case (Cons first rest)
  with py_in_empty [of first] show ?thesis
    by (cases "output = []") (simp_all add: clean_output_def drop_command_line_def)
qed

text \<open>
  C10. For the empty command and every non-empty raw output, the cleaner drops the first
  line of the escape-stripped output whatever it holds, since the empty string occurs in
  every string: the result is made of the lines after the first alone. Hence, when
  \<open>execute_command\<close> returns for the empty command, the pass that returned, the first
  one or the second one after a first that raised, has read some raw output, and the
  text handed back is made of the lines after the first of that very output.
\<close>

theorem empty_command_drops_first_line:
  "(output \<noteq> []
      \<longrightarrow> clean_output [] output
          = join [10] (filter_lines (drop 1 (splitlines (ansi_sub output)))))
   \<and> (execute_command [] timeout (s, w) = (Inr (cwd, cleaned), s', w')
      \<longrightarrow> (\<exists>s0 w0 raw w4.
             ((s0, w0) = (s, w)
              \<or> (\<exists>e w1. attempt [] timeout (s, w) = (Inl e, s0, w1) \<and> w0 = sleep 1000 w1))
             \<and> pass_read [] timeout (s0, w0) = (Inr raw, s', w4)
             \<and> get_current_directory (s', w4) = (Inr cwd, s', w')
             \<and> cleaned = join [10] (filter_lines (drop 1 (splitlines (ansi_sub raw))))))"
proof (intro conjI impI)
  show "clean_output [] output
      = join [10] (filter_lines (drop 1 (splitlines (ansi_sub output))))"
    by (rule clean_output_empty)
next
  assume r: "execute_command [] timeout (s, w) = (Inr (cwd, cleaned), s', w')"
  from execute_command_pass [OF r]
  obtain s0 w0 where p: "(s0, w0) = (s, w)
        \<or> (\<exists>e w1. attempt [] timeout (s, w) = (Inl e, s0, w1) \<and> w0 = sleep 1000 w1)"
    and a: "attempt [] timeout (s0, w0) = (Inr (cwd, cleaned), s', w')"
    by blast
  from pass_returns [OF a] obtain raw w4
    where "pass_read [] timeout (s0, w0) = (Inr raw, s', w4)"
      and "get_current_directory (s', w4) = (Inr cwd, s', w')"
      and "cleaned = clean_output [] raw"
    by blast
  with p clean_output_empty [of raw]
  show "\<exists>s0 w0 raw w4.
          ((s0, w0) = (s, w)
           \<or> (\<exists>e w1. attempt [] timeout (s, w) = (Inl e, s0, w1) \<and> w0 = sleep 1000 w1))
          \<and> pass_read [] timeout (s0, w0) = (Inr raw, s', w4)
          \<and> get_current_directory (s', w4) = (Inr cwd, s', w')
          \<and> cleaned = join [10] (filter_lines (drop 1 (splitlines (ansi_sub raw))))"
    by (intro exI [of _ s0] exI [of _ w0] exI [of _ raw] exI [of _ w4]) simp
qed

theorem empty_command_drops_first_line_witness:
  "ascii ''secret\<newline>shown\<newline>'' \<noteq> []
   \<and> splitlines (ansi_sub (ascii ''secret\<newline>shown\<newline>'')) = [ascii ''secret'', ascii ''shown'']
   \<and> clean_output [] (ascii ''secret\<newline>shown\<newline>'') = ascii ''shown''
   \<and> pass_read [] 1 (live, two_lines)
       = (Inr (ascii ''secret\<newline>shown\<newline>''), live, idle\<lparr>now := 2100\<rparr>)
   \<and> execute_command [] 1 (live, two_lines)
       = (Inr (ascii ''/srv'', ascii ''shown''), live, idle\<lparr>now := 7200\<rparr>)
   \<and> (\<exists>s0 w0 raw w4.
         ((s0, w0) = (live, two_lines)
          \<or> (\<exists>e w1. attempt [] 1 (live, two_lines) = (Inl e, s0, w1) \<and> w0 = sleep 1000 w1))
         \<and> pass_read [] 1 (s0, w0) = (Inr raw, live, w4)
         \<and> get_current_directory (live, w4) = (Inr (ascii ''/srv''), live, idle\<lparr>now := 7200\<rparr>)
         \<and> ascii ''shown'' = join [10] (filter_lines (drop 1 (splitlines (ansi_sub raw)))))"
proof -
  have ne: "ascii ''secret\<newline>shown\<newline>'' \<noteq> []"
    by (simp add: ascii_def)
  have ls: "splitlines (ansi_sub (ascii ''secret\<newline>shown\<newline>'')) = [ascii ''secret'', ascii ''shown'']"
    by (simp add: cleaner_defs)
  have fl: "join [10] (filter_lines [ascii ''shown'']) = ascii ''shown''"
    by (simp add: cleaner_defs)
  have pr: "pass_read [] 1 (live, two_lines)
       = (Inr (ascii ''secret\<newline>shown\<newline>''), live, idle\<lparr>now := 2100\<rparr>)"
    by (simp add: eval_simps pass_read.simps)
  have ex: "execute_command [] 1 (live, two_lines)
       = (Inr (ascii ''/srv'', ascii ''shown''), live, idle\<lparr>now := 7200\<rparr>)"
    by (simp add: eval_simps)
  note t = empty_command_drops_first_line [of "ascii ''secret\<newline>shown\<newline>''" 1 live two_lines
      "ascii ''/srv''" "ascii ''shown''" live "idle\<lparr>now := 7200\<rparr>"]
  from t [THEN conjunct1, rule_format, OF ne] ls fl
  have 1: "clean_output [] (ascii ''secret\<newline>shown\<newline>'') = ascii ''shown''"
    by simp
  note 2 = t [THEN conjunct2, rule_format, OF ex]
  from ne ls 1 pr ex 2 show ?thesis by (intro conjI) assumption+
qed

end
